theory Spec2Isabelle
  imports Main "HOL-Library.Word"
begin

section \<open>JavaScript strings\<close>

text \<open>
  A JavaScript string is a sequence of UTF-16 code units. The regular expression of
  \<open>parseGraphInput\<close> has no \<open>u\<close> flag, so it works on code units, and so do
  \<open>trim\<close>, \<open>startsWith\<close> and \<open>replace\<close>.
\<close>

type_synonym jschar = "16 word"
type_synonym jsstring = "jschar list"

text \<open>String literals of the source are ASCII; \<open>ascii\<close> gives their code units.\<close>

definition ascii :: "string \<Rightarrow> jsstring" where
  "ascii cs = map (\<lambda>c. of_nat (of_char c)) cs"

text \<open>
  \<open>String.prototype.trim\<close> removes WhiteSpace and LineTerminator code units from both
  ends: TAB, LF, VT, FF, CR, SP, NBSP, U+1680, U+2000 to U+200A, U+2028, U+2029, U+202F,
  U+205F, U+3000 and U+FEFF.
\<close>

definition is_ws :: "jschar \<Rightarrow> bool" where
  "is_ws c = (c \<in> {0x09, 0x0A, 0x0B, 0x0C, 0x0D, 0x20, 0xA0, 0x1680,
                    0x2000, 0x2001, 0x2002, 0x2003, 0x2004, 0x2005, 0x2006, 0x2007,
                    0x2008, 0x2009, 0x200A, 0x2028, 0x2029, 0x202F, 0x205F, 0x3000,
                    0xFEFF})"

definition trim :: "jsstring \<Rightarrow> jsstring" where
  "trim s = rev (dropWhile is_ws (rev (dropWhile is_ws s)))"

section \<open>The graph parser\<close>

subsection \<open>The regular expression\<close>

text \<open>
  \<open>pairRegex = /\(([^,]+),([^)]+)\)/g\<close> is a sequence of five atoms: a literal
  character, or a capturing group around a greedy \<open>[^c]+\<close>.
\<close>

datatype atom = Lit jschar | GroupNotPlus jschar

definition LPAREN :: jschar where "LPAREN = 0x28"
definition RPAREN :: jschar where "RPAREN = 0x29"
definition COMMA :: jschar where "COMMA = 0x2C"

definition pairRegex :: "atom list" where
  "pairRegex = [Lit LPAREN, GroupNotPlus COMMA, Lit COMMA, GroupNotPlus RPAREN, Lit RPAREN]"

text \<open>
  The backtracking matcher of ECMAScript, for this fragment. A match of a pattern at the
  head of \<open>s\<close> is the list of captured groups and the text left after the match.
  \<open>greedy k s n\<close> is the quantifier \<open>+\<close>: it tries to take \<open>n\<close> characters, then
  \<open>n - 1\<close>, down to one, and keeps the first length after which the continuation \<open>k\<close>
  (the rest of the pattern) matches.
\<close>

type_synonym rmatch_result = "(jsstring list \<times> jsstring) option"

fun greedy :: "(jsstring \<Rightarrow> rmatch_result) \<Rightarrow> jsstring \<Rightarrow> nat \<Rightarrow> rmatch_result" where
  "greedy k s 0 = None"
| "greedy k s (Suc n) =
     (case k (drop (Suc n) s) of
        Some (caps, rest) \<Rightarrow> Some (take (Suc n) s # caps, rest)
      | None \<Rightarrow> greedy k s n)"

primrec rmatch :: "atom list \<Rightarrow> jsstring \<Rightarrow> rmatch_result" where
  "rmatch [] s = Some ([], s)"
| "rmatch (a # as) s =
     (case a of
        Lit c \<Rightarrow> (case s of [] \<Rightarrow> None | x # xs \<Rightarrow> if x = c then rmatch as xs else None)
      | GroupNotPlus c \<Rightarrow> greedy (rmatch as) s (length (takeWhile (\<lambda>x. x \<noteq> c) s)))"

text \<open>
  \<open>RegExp.prototype.exec\<close> with the \<open>g\<close> flag looks for the leftmost position at or
  after \<open>lastIndex\<close> where the pattern matches, and moves \<open>lastIndex\<close> to the end of
  the match. The argument here is the input from \<open>lastIndex\<close> on, and the text left after
  the match is the input from the new \<open>lastIndex\<close> on; \<open>None\<close> is \<open>null\<close>.
  The match array holds the matched text at index 0 and the groups after it.
\<close>

fun exec :: "atom list \<Rightarrow> jsstring \<Rightarrow> rmatch_result" where
  "exec re [] =
     (case rmatch re [] of
        Some (caps, rest) \<Rightarrow> Some ([] # caps, rest)
      | None \<Rightarrow> None)"
| "exec re (x # xs) =
     (case rmatch re (x # xs) of
        Some (caps, rest) \<Rightarrow> Some (take (Suc (length xs) - length rest) (x # xs) # caps, rest)
      | None \<Rightarrow> exec re xs)"

text \<open>A match never gives back more text than it was given, and a literal consumes one
  character: the loop below advances at every match.\<close>

lemma greedy_Some:
  "greedy k s n = Some (caps, rest) \<Longrightarrow>
     \<exists>m caps'. 0 < m \<and> m \<le> n \<and> k (drop m s) = Some (caps', rest) \<and> caps = take m s # caps'"
proof (induction n)
  case 0
  then show ?case by simp
next
  case (Suc n)
  show ?case
  proof (cases "k (drop (Suc n) s)")
    case None
    with Suc.prems have "greedy k s n = Some (caps, rest)" by simp
    from Suc.IH [OF this] obtain m caps' where
      "0 < m" "m \<le> n" "k (drop m s) = Some (caps', rest)" "caps = take m s # caps'" by blast
    then have "0 < m \<and> m \<le> Suc n \<and> k (drop m s) = Some (caps', rest) \<and> caps = take m s # caps'"
      by simp
    then show ?thesis by blast
  next
    case (Some r)
    obtain c' r' where r: "r = (c', r')" by (cases r)
    with Some Suc.prems have "caps = take (Suc n) s # c'" "rest = r'" by auto
    with Some r show ?thesis by blast
  qed
qed

lemma rmatch_length: "rmatch re s = Some (caps, rest) \<Longrightarrow> length rest \<le> length s"
proof (induction re arbitrary: s caps rest)
  case Nil
  then show ?case by simp
next
  case (Cons a as)
  show ?case
  proof (cases a)
    case (Lit c)
    with Cons.prems obtain x xs where s: "s = x # xs" and "rmatch as xs = Some (caps, rest)"
      by (auto split: list.splits if_splits)
    from Cons.IH [OF this(2)] s show ?thesis by simp
  next
    case (GroupNotPlus c)
    with Cons.prems
    have "greedy (rmatch as) s (length (takeWhile (\<lambda>x. x \<noteq> c) s)) = Some (caps, rest)"
      by simp
    from greedy_Some [OF this] obtain m caps' where "rmatch as (drop m s) = Some (caps', rest)"
      by blast
    from Cons.IH [OF this] show ?thesis by simp
  qed
qed

lemma rmatch_Lit_length:
  "rmatch (Lit c # as) s = Some (caps, rest) \<Longrightarrow> length rest < length s"
  by (auto split: list.splits if_splits dest: rmatch_length)

lemma exec_Lit_length:
  "exec (Lit c # as) s = Some (m, rest) \<Longrightarrow> length rest < length s"
proof (induction s)
  case Nil
  then show ?case by (auto split: option.splits)
next
  case (Cons x xs)
  show ?case
  proof (cases "rmatch (Lit c # as) (x # xs)")
    case None
    with Cons show ?thesis by (auto simp del: rmatch.simps)
  next
    case (Some r)
    obtain c' r' where r: "r = (c', r')" by (cases r)
    with Some Cons.prems have "rest = r'" by (auto simp del: rmatch.simps)
    with Some r rmatch_Lit_length show ?thesis by blast
  qed
qed

subsection \<open>parseGraphInput\<close>

text \<open>
  \<^verbatim>\<open>while ((match = pairRegex.exec(input)) !== null) {
    pairs.push([match[1].trim(), match[2].trim()]) }\<close>
  The pattern has two groups, so \<open>match[1]\<close> and \<open>match[2]\<close> are strings at every
  match (lemma \<open>exec_pairRegex_groups\<close> below).
\<close>

function matchLoop :: "jsstring \<Rightarrow> (jsstring \<times> jsstring) list" where
  "matchLoop s =
     (case exec pairRegex s of
        None \<Rightarrow> []
      | Some (m, rest) \<Rightarrow> (trim (m ! 1), trim (m ! 2)) # matchLoop rest)"
  by pat_completeness auto
termination
  by (relation "measure length") (auto simp: pairRegex_def dest: exec_Lit_length)

text \<open>
  \<open>nodeSet\<close> is a JavaScript \<open>Set\<close>: it keeps its elements in insertion order, and
  \<open>add\<close> of an element already there (the same string) changes nothing.
\<close>

definition set_add :: "jsstring list \<Rightarrow> jsstring \<Rightarrow> jsstring list" where
  "set_add ns v = (if v \<in> set ns then ns else ns @ [v])"

definition nodeSet :: "(jsstring \<times> jsstring) list \<Rightarrow> jsstring list" where
  "nodeSet pairs = foldl (\<lambda>ns (from, to). set_add (set_add ns from) to) [] pairs"

record INode =
  node_id :: jsstring
  node_title :: jsstring
  node_type :: jsstring
  node_x :: nat
  node_y :: nat

record IEdge =
  edge_source :: jsstring
  edge_target :: jsstring
  edge_type :: jsstring

record Graph =
  nodes :: "INode list"
  edges :: "IEdge list"

definition mk_node :: "nat \<times> jsstring \<Rightarrow> INode" where
  "mk_node p = (case p of (idx, name) \<Rightarrow>
     \<lparr>node_id = name, node_title = name, node_type = ascii ''empty'',
      node_x = (idx mod 5) * 200 + 100, node_y = (idx div 5) * 150 + 100\<rparr>)"

definition mk_edge :: "jsstring \<times> jsstring \<Rightarrow> IEdge" where
  "mk_edge p = (case p of (from, to) \<Rightarrow>
     \<lparr>edge_source = from, edge_target = to, edge_type = ascii ''emptyEdge''\<rparr>)"

definition parseGraphInput :: "jsstring \<Rightarrow> Graph" where
  "parseGraphInput input =
     (let pairs = matchLoop input
      in \<lparr>nodes = map mk_node (enumerate 0 (nodeSet pairs)),
          edges = map mk_edge pairs\<rparr>)"

subsection \<open>What the pattern matches, read off the regular expression\<close>

text \<open>
  At an open parenthesis: the longest run of characters other than a comma, which must be
  non-empty and end at a comma; then the longest run of characters other than a close
  parenthesis, non-empty and ending at a close parenthesis. The first token may hold
  parentheses and the second may hold commas.
\<close>

definition pair_here :: "jsstring \<Rightarrow> (jsstring \<times> jsstring \<times> jsstring) option" where
  "pair_here s =
     (case s of
        [] \<Rightarrow> None
      | x # s1 \<Rightarrow>
          if x \<noteq> LPAREN \<or> takeWhile (\<lambda>c. c \<noteq> COMMA) s1 = [] then None
          else (case dropWhile (\<lambda>c. c \<noteq> COMMA) s1 of
                  [] \<Rightarrow> None
                | _ # s2 \<Rightarrow>
                    if takeWhile (\<lambda>c. c \<noteq> RPAREN) s2 = [] then None
                    else (case dropWhile (\<lambda>c. c \<noteq> RPAREN) s2 of
                            [] \<Rightarrow> None
                          | _ # s3 \<Rightarrow>
                              Some (takeWhile (\<lambda>c. c \<noteq> COMMA) s1,
                                    takeWhile (\<lambda>c. c \<noteq> RPAREN) s2, s3))))"

lemma pair_here_length: "pair_here s = Some (t1, t2, rest) \<Longrightarrow> length rest < length s"
proof -
  assume a: "pair_here s = Some (t1, t2, rest)"
  then obtain x s1 where s: "s = x # s1"
    by (cases s) (auto simp: pair_here_def)
  from a s obtain y s2 where d1: "dropWhile (\<lambda>c. c \<noteq> COMMA) s1 = y # s2"
    by (auto simp: pair_here_def split: if_splits list.splits)
  from a s d1 obtain z where d2: "dropWhile (\<lambda>c. c \<noteq> RPAREN) s2 = z # rest"
    by (auto simp: pair_here_def split: if_splits list.splits)
  have "length (dropWhile (\<lambda>c. c \<noteq> COMMA) s1) \<le> length s1"
    by (rule length_dropWhile_le)
  moreover have "length (dropWhile (\<lambda>c. c \<noteq> RPAREN) s2) \<le> length s2"
    by (rule length_dropWhile_le)
  ultimately show ?thesis using s d1 d2 by simp
qed

text \<open>The pairs in scanning order: after a match the scan goes on behind it, and where
  nothing matches it moves one character on.\<close>

function scan_pairs :: "jsstring \<Rightarrow> (jsstring \<times> jsstring) list" where
  "scan_pairs [] = []"
| "scan_pairs (x # xs) =
     (case pair_here (x # xs) of
        Some (t1, t2, rest) \<Rightarrow> (trim t1, trim t2) # scan_pairs rest
      | None \<Rightarrow> scan_pairs xs)"
  by pat_completeness auto
termination
  by (relation "measure length") (auto dest: pair_here_length)

text \<open>The tokens of the pairs in the order they are seen, and a list without its later
  duplicates.\<close>

definition tokens_of :: "(jsstring \<times> jsstring) list \<Rightarrow> jsstring list" where
  "tokens_of pairs = concat (map (\<lambda>(from, to). [from, to]) pairs)"

fun first_seen :: "'a list \<Rightarrow> 'a list" where
  "first_seen [] = []"
| "first_seen (x # xs) = x # removeAll x (first_seen xs)"

section \<open>The lookup orchestrator\<close>

subsection \<open>Values that cross the boundary\<close>

text \<open>
  A thrown value can be anything. \<open>doLookup\<close> does one thing with the value it catches:
  it evaluates \<open>String(err)\<close> for a log line. That returns a string (\<open>Printable\<close>)
  or throws another value (\<open>Unprintable\<close>): \<open>String(Object.create(null))\<close> throws a
  TypeError, and \<open>String\<close> of an object whose \<open>toString\<close> throws \<open>v\<close> throws
  \<open>v\<close>.
\<close>

datatype thrown = Printable jsstring | Unprintable thrown

text \<open>A call of a collaborator either throws or returns.\<close>

datatype 'a outcome = Throws thrown | Returns 'a

definition String_of :: "thrown \<Rightarrow> jsstring outcome" where
  "String_of err = (case err of Printable s \<Rightarrow> Returns s | Unprintable e \<Rightarrow> Throws e)"

text \<open>
  A value parsed from JSON. A number is a finite double, written \<open>m * 2 ^ e\<close> with
  integers \<open>m\<close> and \<open>e\<close>; an object is its list of own properties, each key once.
\<close>

datatype json =
    JNull
  | JBool bool
  | JNum int int
  | JStr jsstring
  | JArr "json list"
  | JObj "(jsstring \<times> json) list"

text \<open>
  Reading a property \<open>p\<close> of a JSON value other than \<open>null\<close>; \<open>None\<close> is
  \<open>undefined\<close>. The source reads \<open>status\<close>, \<open>result\<close>, \<open>message\<close>,
  \<open>hash\<close>, \<open>from\<close>, \<open>to\<close>, \<open>value\<close>, \<open>blockNumber\<close> and \<open>timeStamp\<close>;
  none of them is a built-in property of a string, a number, a boolean or an array, so on
  those values the result is \<open>undefined\<close>. Reading a property of \<open>null\<close> throws a
  TypeError, which the callers below write out.
\<close>

definition get_prop :: "json \<Rightarrow> jsstring \<Rightarrow> json option" where
  "get_prop v p = (case v of JObj kvs \<Rightarrow> map_of kvs p | _ \<Rightarrow> None)"

text \<open>Truthiness of a JSON value, and of a value that may be \<open>undefined\<close>.\<close>

definition truthy :: "json \<Rightarrow> bool" where
  "truthy v = (case v of
       JNull \<Rightarrow> False
     | JBool b \<Rightarrow> b
     | JNum m e \<Rightarrow> m \<noteq> 0
     | JStr s \<Rightarrow> s \<noteq> []
     | JArr _ \<Rightarrow> True
     | JObj _ \<Rightarrow> True)"

text \<open>A string or \<open>null\<close> (\<open>None\<close>): its truthiness, and \<open>String(v)\<close>.\<close>

definition truthy_str :: "jsstring option \<Rightarrow> bool" where
  "truthy_str v = (case v of None \<Rightarrow> False | Some s \<Rightarrow> s \<noteq> [])"

definition String_opt :: "jsstring option \<Rightarrow> jsstring" where
  "String_opt v = (case v of None \<Rightarrow> ascii ''null'' | Some s \<Rightarrow> s)"

text \<open>A non-negative integer in a template literal: its decimal digits.\<close>

function show_nat :: "nat \<Rightarrow> jsstring" where
  "show_nat n =
     (if n < 10 then [of_nat (48 + n)]
      else show_nat (n div 10) @ [of_nat (48 + n mod 10)])"
  by pat_completeness auto
termination
  by (relation "measure id") auto

declare show_nat.simps [simp del]

text \<open>What \<open>ethers.formatEther\<close> is given: a bigint balance, or a raw field of a
  transaction record.\<close>

datatype BigNumberish = BigIntV int | RawV "json option"

subsection \<open>parseInt\<close>

text \<open>
  The value of \<open>parseInt\<close>: NaN, or the Number for an integer \<open>n\<close>, which is the double
  nearest to \<open>n\<close> (\<open>n\<close> itself up to \<open>2 ^ 53\<close>).
\<close>

datatype jsnumber = Integer int | NaN

text \<open>The value of a character as a digit; 36 for a character that is no digit in any
  radix.\<close>

definition digit_value :: "jschar \<Rightarrow> nat" where
  "digit_value c =
     (if 0x30 \<le> c \<and> c \<le> 0x39 then unat c - 48
      else if 0x61 \<le> c \<and> c \<le> 0x7A then unat c - 87
      else if 0x41 \<le> c \<and> c \<le> 0x5A then unat c - 55
      else 36)"

text \<open>A leading \<open>-\<close> or \<open>+\<close> is taken off; the result says whether it was \<open>-\<close>.\<close>

definition strip_sign :: "jsstring \<Rightarrow> bool \<times> jsstring" where
  "strip_sign S =
     (case S of
        [] \<Rightarrow> (False, [])
      | c # rest \<Rightarrow>
          if c = 0x2D then (True, rest) else if c = 0x2B then (False, rest) else (False, S))"

text \<open>With no radix argument the radix is 10, or 16 after a prefix \<open>0x\<close> or \<open>0X\<close>,
  which is taken off.\<close>

definition strip_prefix :: "jsstring \<Rightarrow> nat \<times> jsstring" where
  "strip_prefix S =
     (case S of
        c # d # rest \<Rightarrow> if c = 0x30 \<and> (d = 0x78 \<or> d = 0x58) then (16, rest) else (10, S)
      | _ \<Rightarrow> (10, S))"

text \<open>
  \<open>parseInt\<close> of a string: leading whitespace is skipped, then the sign and the prefix,
  and the longest run of digits of the radix is read; with no digit the result is NaN.
\<close>

definition parseInt_string :: "jsstring \<Rightarrow> jsnumber" where
  "parseInt_string inputString =
     (case strip_sign (dropWhile is_ws inputString) of
        (negative, S1) \<Rightarrow>
          (case strip_prefix S1 of
             (R, S2) \<Rightarrow>
               if takeWhile (\<lambda>c. digit_value c < R) S2 = [] then NaN
               else Integer ((if negative then - 1 else 1) *
                      int (foldl (\<lambda>acc c. acc * R + digit_value c) 0
                             (takeWhile (\<lambda>c. digit_value c < R) S2)))))"

subsection \<open>State\<close>

datatype level = Info | Error

record LogEntry =
  log_time :: jsstring
  log_level :: level
  log_text :: jsstring

record Profile =
  p_name :: "jsstring option"
  p_avatar :: "jsstring option"
  p_description :: "jsstring option"
  p_url :: "jsstring option"
  p_address :: "jsstring option"
  p_resolver :: "jsstring option"
  p_reverse :: "jsstring option"
  p_balance :: "jsstring option"

text \<open>The object \<open>{}\<close> of \<open>p ?? {}\<close>.\<close>

definition emptyProfile :: Profile where
  "emptyProfile = \<lparr>p_name = None, p_avatar = None, p_description = None, p_url = None,
     p_address = None, p_resolver = None, p_reverse = None, p_balance = None\<rparr>"

record Transaction =
  tx_hash :: "json option"
  tx_from :: "json option"
  tx_to :: "json option"
  tx_value :: jsstring
  tx_blockNumber :: jsnumber
  tx_timestamp :: jsnumber

text \<open>The React state that \<open>doLookup\<close> writes. The other state of the component (the
  query, the mode, the graph and the selected node) is not touched by it.\<close>

record state =
  logs :: "LogEntry list"
  profile :: "Profile option"
  transactions :: "Transaction list"
  loading :: bool
  showModal :: bool

subsection \<open>Collaborators\<close>

text \<open>
  The resolver object. \<open>typeof resolver.getContentHash === 'function'\<close> and the two
  other capability tests are the \<open>Some\<close> of an optional method. \<open>getAddress\<close> takes
  no argument (\<open>None\<close>) or a coin type.
\<close>

record Resolver =
  r_address :: "jsstring option"
  r_getContentHash :: "jsstring option outcome option"
  r_getText :: "jsstring \<Rightarrow> jsstring option outcome"
  r_getAddress :: "(nat option \<Rightarrow> jsstring option outcome) option"
  r_addr :: "(jsstring \<Rightarrow> jsstring option outcome) option"

text \<open>
  Everything \<open>doLookup\<close> gets from outside, as the answers it will be given. One lookup
  makes every call at most once with the same arguments, so an answer per argument
  describes every behaviour of the collaborators. \<open>fetch\<close> answers with a response, which
  is the outcome of its \<open>json()\<close>. \<open>now n\<close> is \<open>new Date().toISOString()\<close> read when
  the log holds \<open>n\<close> entries. Three answers are the engine's: \<open>numberToString m e\<close> is
  the text of the number \<open>m * 2 ^ e\<close>, \<open>nullPropertyError p\<close> is \<open>String\<close> of the
  TypeError for reading property \<open>p\<close> of \<open>null\<close>, and \<open>toPrimitiveError\<close> is
  \<open>String\<close> of the TypeError for an object that cannot be converted to a primitive value.
\<close>

record env =
  newProvider :: "unit outcome"
  isAddress :: "jsstring \<Rightarrow> bool outcome"
  resolveName :: "jsstring \<Rightarrow> jsstring option outcome"
  namehash :: "jsstring \<Rightarrow> jsstring outcome"
  getBalance :: "jsstring \<Rightarrow> int outcome"
  formatEther :: "BigNumberish \<Rightarrow> jsstring outcome"
  getCode :: "jsstring \<Rightarrow> jsstring outcome"
  getTransactionCount :: "jsstring \<Rightarrow> nat outcome"
  lookupAddress :: "jsstring \<Rightarrow> jsstring option outcome"
  getResolver :: "jsstring \<Rightarrow> Resolver option outcome"
  fetch :: "jsstring \<Rightarrow> json outcome outcome"
  numberToString :: "int \<Rightarrow> int \<Rightarrow> jsstring"
  nullPropertyError :: "jsstring \<Rightarrow> jsstring"
  toPrimitiveError :: jsstring
  VITE_ETHERSCAN_API_KEY :: "jsstring option"
  now :: "nat \<Rightarrow> jsstring"

subsection \<open>ToString of a JSON value\<close>

text \<open>
  The conversion that a template literal and \<open>parseInt\<close> apply to their argument. An
  object parsed from JSON has only data properties. Its conversion looks up \<open>toString\<close>:
  an own property of that name is not callable and hides the inherited method, and
  \<open>valueOf\<close> cannot give a primitive value either, so a TypeError is thrown; without
  such a property the inherited method returns \<open>[object Object]\<close>. An array is joined
  with commas, \<open>null\<close> elements giving the empty string, and the first element that
  throws ends the conversion.
\<close>

fun ToString_json :: "env \<Rightarrow> json \<Rightarrow> jsstring outcome"
  and join_json :: "env \<Rightarrow> json list \<Rightarrow> jsstring outcome" where
  "ToString_json env JNull = Returns (ascii ''null'')"
| "ToString_json env (JBool b) = Returns (if b then ascii ''true'' else ascii ''false'')"
| "ToString_json env (JNum m e) = Returns (numberToString env m e)"
| "ToString_json env (JStr s) = Returns s"
| "ToString_json env (JArr xs) = join_json env xs"
| "ToString_json env (JObj kvs) =
     (if ascii ''toString'' \<in> fst ` set kvs then Throws (Printable (toPrimitiveError env))
      else Returns (ascii ''[object Object]''))"
| "join_json env [] = Returns []"
| "join_json env (x # xs) =
     (case (if x = JNull then Returns [] else ToString_json env x) of
        Throws e \<Rightarrow> Throws e
      | Returns s \<Rightarrow>
          if xs = [] then Returns s
          else (case join_json env xs of
                  Throws e \<Rightarrow> Throws e
                | Returns t \<Rightarrow> Returns (s @ ascii '','' @ t)))"

text \<open>The same for a value that may be \<open>undefined\<close>.\<close>

definition ToString :: "env \<Rightarrow> json option \<Rightarrow> jsstring outcome" where
  "ToString env v =
     (case v of None \<Rightarrow> Returns (ascii ''undefined'') | Some j \<Rightarrow> ToString_json env j)"

definition parseInt :: "env \<Rightarrow> json option \<Rightarrow> jsnumber outcome" where
  "parseInt env v =
     (case ToString env v of
        Throws e \<Rightarrow> Throws e
      | Returns inputString \<Rightarrow> Returns (parseInt_string inputString))"

subsection \<open>Effects\<close>

text \<open>
  \<open>doLookup\<close> never reads the React state: it calls setters, some with an updater
  function, and awaits collaborators. Its run is the sequence of these effects in program
  order; the state after the run is the state after the setters in that order.
\<close>

datatype call =
    ResolveName jsstring
  | GetBalance jsstring
  | GetCode jsstring
  | GetTransactionCount jsstring
  | LookupAddress jsstring
  | GetResolver jsstring
  | GetContentHash
  | GetText jsstring
  | GetAddress "nat option"
  | Addr jsstring
  | Fetch jsstring
  | ResponseJson

datatype effect =
    SetLoading bool
  | SetProfile "Profile option"
  | UpdateProfile "Profile \<Rightarrow> Profile"
  | SetTransactions "Transaction list"
  | SetShowModal bool
  | AddLog level jsstring
  | Await call

text \<open>
  \<open>UpdateProfile f\<close> is \<open>setProfile((p) => ({ ...(p ?? {}), ... }))\<close>, with \<open>f\<close> the
  fields written over \<open>p ?? {}\<close>. \<open>AddLog\<close> is \<open>addLog\<close>, which puts the new entry in
  front.
\<close>

definition apply_effect :: "env \<Rightarrow> state \<Rightarrow> effect \<Rightarrow> state" where
  "apply_effect env s e =
     (case e of
        SetLoading b \<Rightarrow> s\<lparr>loading := b\<rparr>
      | SetProfile p \<Rightarrow> s\<lparr>profile := p\<rparr>
      | UpdateProfile f \<Rightarrow>
          s\<lparr>profile := Some (f (case profile s of None \<Rightarrow> emptyProfile | Some p \<Rightarrow> p))\<rparr>
      | SetTransactions txs \<Rightarrow> s\<lparr>transactions := txs\<rparr>
      | SetShowModal b \<Rightarrow> s\<lparr>showModal := b\<rparr>
      | AddLog lvl txt \<Rightarrow>
          s\<lparr>logs := \<lparr>log_time = now env (length (logs s)), log_level = lvl, log_text = txt\<rparr>
                       # logs s\<rparr>
      | Await c \<Rightarrow> s)"

definition run_effects :: "env \<Rightarrow> state \<Rightarrow> effect list \<Rightarrow> state" where
  "run_effects env s evs = foldl (apply_effect env) s evs"

text \<open>The collaborator calls of a run, and its log lines, in program order.\<close>

fun calls :: "effect list \<Rightarrow> call list" where
  "calls [] = []"
| "calls (Await c # evs) = c # calls evs"
| "calls (e # evs) = calls evs"

fun log_lines :: "effect list \<Rightarrow> (level \<times> jsstring) list" where
  "log_lines [] = []"
| "log_lines (AddLog lvl txt # evs) = (lvl, txt) # log_lines evs"
| "log_lines (e # evs) = log_lines evs"

text \<open>
  How a block ends: at its end, at a \<open>return\<close>, or with a thrown value. The run of a
  block is the effects it has made and how it ends.
\<close>

datatype completion = Normal | Returned | Thrown thrown

type_synonym run = "effect list \<times> completion"

text \<open>Statements that make effects and go on; a throw; one block after another, the second
  only when the first ends normally.\<close>

definition emit :: "effect list \<Rightarrow> run" where
  "emit evs = (evs, Normal)"

definition raise :: "thrown \<Rightarrow> run" where
  "raise e = ([], Thrown e)"

definition seq :: "run \<Rightarrow> run \<Rightarrow> run" where
  "seq a b =
     (case a of
        (evs, Normal) \<Rightarrow> (evs @ fst b, snd b)
      | (evs, c) \<Rightarrow> (evs, c))"

text \<open>\<open>try\<close> with \<open>catch\<close>: the handler runs on a throw of the body, and may throw
  itself. \<open>try\<close> with \<open>finally\<close>: the finalizer runs however the body ends; here it
  ends normally, and the block ends as its body did.\<close>

definition try_catch :: "run \<Rightarrow> (thrown \<Rightarrow> run) \<Rightarrow> run" where
  "try_catch body handler =
     (case body of
        (evs, Thrown e) \<Rightarrow> (evs @ fst (handler e), snd (handler e))
      | (evs, c) \<Rightarrow> (evs, c))"

definition try_finally :: "run \<Rightarrow> run \<Rightarrow> run" where
  "try_finally body finalizer =
     (case body of
        (evs, c) \<Rightarrow>
          (case finalizer of
             (evs', Normal) \<Rightarrow> (evs @ evs', c)
           | (evs', c') \<Rightarrow> (evs @ evs', c')))"

text \<open>
  The handler of every non-empty \<open>catch\<close> of the source:
  \<^verbatim>\<open>catch (err) { addLog('error', `<prefix>${String(err)}`) }\<close>
  When \<open>String(err)\<close> throws, nothing is logged and the handler throws.
\<close>

definition log_failure :: "jsstring \<Rightarrow> thrown \<Rightarrow> run" where
  "log_failure prefix err =
     (case String_of err of
        Returns s \<Rightarrow> emit [AddLog Error (prefix @ s)]
      | Throws e \<Rightarrow> raise e)"

subsection \<open>The steps of doLookup\<close>

text \<open>
  Each inner \<open>try\<close> block of the source is one definition here, with its \<open>catch\<close>
  as the \<open>Throws\<close> branches. \<open>addLog\<close> and the setters do not throw, so an inner
  block ends normally unless \<open>String(err)\<close> throws in its handler; then the exception
  leaves the block.

  Step 2: the input is an address, or its name is resolved.
  \<^verbatim>\<open>if (isAddress) { resolvedAddress = name; addLog('info', ...) }
  else { try { resolvedAddress = await provider.resolveName(name); addLog('info', ...) }
         catch (resolveErr) { addLog('error', `resolveName failed: ${String(resolveErr)}`) } }\<close>
  The result is the run of the step and \<open>resolvedAddress\<close>.
\<close>

definition resolve_step :: "env \<Rightarrow> jsstring \<Rightarrow> bool \<Rightarrow> run \<times> jsstring option" where
  "resolve_step env name isAddr =
     (if isAddr then (emit [AddLog Info (ascii ''Input is an address: '' @ name)], Some name)
      else (case resolveName env name of
              Returns r \<Rightarrow>
                (emit [Await (ResolveName name),
                       AddLog Info (ascii ''Resolved address: '' @ String_opt r)], r)
            | Throws e \<Rightarrow>
                (seq (emit [Await (ResolveName name)])
                   (log_failure (ascii ''resolveName failed: '') e), None)))"

text \<open>The \<open>catch\<close> of the namehash is empty: nothing is evaluated in it.\<close>

definition namehash_step :: "env \<Rightarrow> jsstring \<Rightarrow> effect list" where
  "namehash_step env name =
     (case namehash env name of
        Returns nh \<Rightarrow> [AddLog Info (ascii ''namehash: '' @ nh)]
      | Throws e \<Rightarrow> [])"

definition balance_step :: "env \<Rightarrow> jsstring \<Rightarrow> run" where
  "balance_step env a =
     seq (emit [Await (GetBalance a)])
       (case getBalance env a of
          Throws e \<Rightarrow> log_failure (ascii ''getBalance failed: '') e
        | Returns b \<Rightarrow>
            (case formatEther env (BigIntV b) of
               Throws e \<Rightarrow> log_failure (ascii ''getBalance failed: '') e
             | Returns f \<Rightarrow>
                 emit [AddLog Info (ascii ''balance: '' @ f @ ascii '' ETH''),
                       UpdateProfile (\<lambda>p. p\<lparr>p_address := Some a,
                                               p_balance := Some (f @ ascii '' ETH'')\<rparr>)]))"

definition code_step :: "env \<Rightarrow> jsstring \<Rightarrow> run" where
  "code_step env a =
     seq (emit [Await (GetCode a)])
       (case getCode env a of
          Throws e \<Rightarrow> log_failure (ascii ''getCode failed: '') e
        | Returns code \<Rightarrow>
            emit [AddLog Info (ascii ''code length: '' @
                    show_nat (if code \<noteq> [] then length code else 0))])"

definition txcount_step :: "env \<Rightarrow> jsstring \<Rightarrow> run" where
  "txcount_step env a =
     seq (emit [Await (GetTransactionCount a)])
       (case getTransactionCount env a of
          Throws e \<Rightarrow> log_failure (ascii ''getTransactionCount failed: '') e
        | Returns txCount \<Rightarrow>
            emit [AddLog Info (ascii ''transactionCount: '' @ show_nat txCount)])"

definition reverse_step :: "env \<Rightarrow> jsstring \<Rightarrow> run" where
  "reverse_step env a =
     seq (emit [Await (LookupAddress a)])
       (case lookupAddress env a of
          Throws e \<Rightarrow> log_failure (ascii ''lookupAddress failed: '') e
        | Returns reverse \<Rightarrow>
            emit (AddLog Info (ascii ''reverse name: '' @ String_opt reverse) #
                  (if truthy_str reverse then [UpdateProfile (\<lambda>p. p\<lparr>p_reverse := reverse\<rparr>)]
                   else [])))"

text \<open>The resolver stays \<open>null\<close> when \<open>getResolver\<close> throws or returns \<open>null\<close>.\<close>

definition getResolver_step :: "env \<Rightarrow> jsstring \<Rightarrow> run \<times> Resolver option" where
  "getResolver_step env name =
     (case getResolver env name of
        Throws e \<Rightarrow>
          (seq (emit [Await (GetResolver name)]) (log_failure (ascii ''getResolver failed: '') e),
           None)
      | Returns None \<Rightarrow>
          (emit [Await (GetResolver name), AddLog Info (ascii ''No resolver found for '' @ name)],
           None)
      | Returns (Some r) \<Rightarrow>
          (emit [Await (GetResolver name),
                 AddLog Info (ascii ''resolver address: '' @
                   (case r_address r of None \<Rightarrow> ascii ''unknown'' | Some ra \<Rightarrow> ra)),
                 UpdateProfile (\<lambda>p. p\<lparr>p_resolver := r_address r\<rparr>)], Some r))"

definition contentHash_step :: "Resolver \<Rightarrow> run" where
  "contentHash_step r =
     (case r_getContentHash r of
        None \<Rightarrow> emit [AddLog Info (ascii ''getContentHash not available on resolver'')]
      | Some res \<Rightarrow>
          seq (emit [Await GetContentHash])
            (case res of
               Throws e \<Rightarrow> log_failure (ascii ''getContentHash failed: '') e
             | Returns ch \<Rightarrow> emit [AddLog Info (ascii ''contentHash: '' @ String_opt ch)]))"

text \<open>
  The four text records. Each has its own \<open>try\<close> with an empty \<open>catch\<close>, in which
  nothing is evaluated; the \<open>try\<close> around the four can catch nothing, since none of
  them lets a throw out.
\<close>

definition name_step :: "Resolver \<Rightarrow> effect list" where
  "name_step r =
     Await (GetText (ascii ''name'')) #
     (case r_getText r (ascii ''name'') of
        Throws e \<Rightarrow> []
      | Returns profName \<Rightarrow>
          (case profName of
             None \<Rightarrow> []
           | Some v \<Rightarrow>
               if v \<noteq> [] then
                 [AddLog Info (ascii ''profile.name = '' @ v),
                  UpdateProfile (\<lambda>p. p\<lparr>p_name := Some v\<rparr>)]
               else []))"

definition url_step :: "Resolver \<Rightarrow> effect list" where
  "url_step r =
     Await (GetText (ascii ''url'')) #
     (case r_getText r (ascii ''url'') of
        Throws e \<Rightarrow> []
      | Returns foundUrl \<Rightarrow>
          (case foundUrl of
             None \<Rightarrow> []
           | Some v \<Rightarrow>
               if v \<noteq> [] then
                 [AddLog Info (ascii ''profile.url = '' @ v),
                  UpdateProfile (\<lambda>p. p\<lparr>p_url := Some v\<rparr>)]
               else []))"

text \<open>
  \<open>startsWith\<close>, and \<open>replace\<close> with a string pattern: the first occurrence of the
  pattern is replaced. The replacement text of the source holds no \<open>$\<close>, so it is put
  in as it is.
\<close>

definition startsWith :: "jsstring \<Rightarrow> jsstring \<Rightarrow> bool" where
  "startsWith s p = (take (length p) s = p)"

fun replace :: "jsstring \<Rightarrow> jsstring \<Rightarrow> jsstring \<Rightarrow> jsstring" where
  "replace [] pat rep = (if pat = [] then rep else [])"
| "replace (c # cs) pat rep =
     (if startsWith (c # cs) pat then rep @ drop (length pat) (c # cs)
      else c # replace cs pat rep)"

definition normalize_avatar :: "jsstring \<Rightarrow> jsstring" where
  "normalize_avatar avatar =
     (if startsWith avatar (ascii ''ipfs://'')
      then replace avatar (ascii ''ipfs://'') (ascii ''https://ipfs.io/ipfs/'')
      else avatar)"

definition avatar_step :: "Resolver \<Rightarrow> effect list" where
  "avatar_step r =
     Await (GetText (ascii ''avatar'')) #
     (case r_getText r (ascii ''avatar'') of
        Throws e \<Rightarrow> []
      | Returns avatar \<Rightarrow>
          (case avatar of
             None \<Rightarrow> []
           | Some v \<Rightarrow>
               if v \<noteq> [] then
                 [AddLog Info (ascii ''profile.avatar = '' @ normalize_avatar v),
                  UpdateProfile (\<lambda>p. p\<lparr>p_avatar := Some (normalize_avatar v)\<rparr>)]
               else []))"

definition description_step :: "Resolver \<Rightarrow> effect list" where
  "description_step r =
     Await (GetText (ascii ''description'')) #
     (case r_getText r (ascii ''description'') of
        Throws e \<Rightarrow> []
      | Returns desc \<Rightarrow>
          (case desc of
             None \<Rightarrow> []
           | Some v \<Rightarrow>
               if v \<noteq> [] then
                 [AddLog Info (ascii ''profile.description = '' @ v),
                  UpdateProfile (\<lambda>p. p\<lparr>p_description := Some v\<rparr>)]
               else []))"

definition profile_fields :: "Resolver \<Rightarrow> effect list" where
  "profile_fields r = name_step r @ url_step r @ avatar_step r @ description_step r"

definition resolverAddress_step :: "Resolver \<Rightarrow> run" where
  "resolverAddress_step r =
     (case r_getAddress r of
        Some getAddress \<Rightarrow>
          seq (emit [Await (GetAddress None)])
            (case getAddress None of
               Throws e \<Rightarrow> log_failure (ascii ''resolver address lookup failed: '') e
             | Returns ethAddr \<Rightarrow>
                 emit [AddLog Info (ascii ''resolver.getAddress() => '' @ String_opt ethAddr)])
      | None \<Rightarrow>
          (case r_addr r of
             Some addr \<Rightarrow>
               seq (emit [Await (Addr (ascii ''60''))])
                 (case addr (ascii ''60'') of
                    Throws e \<Rightarrow> log_failure (ascii ''resolver address lookup failed: '') e
                  | Returns ethAddr \<Rightarrow>
                      emit [AddLog Info (ascii ''resolver.addr(60) => '' @ String_opt ethAddr)])
           | None \<Rightarrow> emit [AddLog Info (ascii ''resolver address lookup API not available'')]))"

definition coin_step :: "Resolver \<Rightarrow> nat \<Rightarrow> run" where
  "coin_step r coin =
     (case r_getAddress r of
        None \<Rightarrow> emit []
      | Some getAddress \<Rightarrow>
          seq (emit [Await (GetAddress (Some coin))])
            (case getAddress (Some coin) of
               Throws e \<Rightarrow>
                 log_failure (ascii ''resolver.getAddress('' @ show_nat coin @ ascii '') failed: '') e
             | Returns a \<Rightarrow>
                 emit [AddLog Info (ascii ''resolver.getAddress('' @ show_nat coin
                                    @ ascii '') => '' @ String_opt a)]))"

definition coinTypes :: "nat list" where
  "coinTypes = [60, 61]"

text \<open>\<^verbatim>\<open>for (const coin of coinTypes) { try { ... } catch (coinErr) { ... } }\<close>\<close>

fun coin_loop :: "Resolver \<Rightarrow> nat list \<Rightarrow> run" where
  "coin_loop r [] = emit []"
| "coin_loop r (coin # rest) = seq (coin_step r coin) (coin_loop r rest)"

definition resolver_steps :: "Resolver \<Rightarrow> run" where
  "resolver_steps r =
     seq (contentHash_step r)
       (seq (emit (profile_fields r))
          (seq (resolverAddress_step r) (coin_loop r coinTypes)))"

text \<open>
  The transaction history. One record becomes one \<open>Transaction\<close>; the fields of the
  object literal are evaluated in order. Reading \<open>tx.hash\<close> of a \<open>null\<close> record
  throws, and so may \<open>formatEther\<close> and the two \<open>parseInt\<close>. \<open>map\<close> goes through
  the records in order and stops at the first throw.
\<close>

definition mk_tx :: "env \<Rightarrow> json \<Rightarrow> Transaction outcome" where
  "mk_tx env tx =
     (if tx = JNull then Throws (Printable (nullPropertyError env (ascii ''hash'')))
      else (case formatEther env (RawV (get_prop tx (ascii ''value''))) of
              Throws e \<Rightarrow> Throws e
            | Returns v \<Rightarrow>
                (case parseInt env (get_prop tx (ascii ''blockNumber'')) of
                   Throws e \<Rightarrow> Throws e
                 | Returns blockNumber \<Rightarrow>
                     (case parseInt env (get_prop tx (ascii ''timeStamp'')) of
                        Throws e \<Rightarrow> Throws e
                      | Returns timestamp \<Rightarrow>
                          Returns \<lparr>tx_hash = get_prop tx (ascii ''hash''),
                                   tx_from = get_prop tx (ascii ''from''),
                                   tx_to = get_prop tx (ascii ''to''),
                                   tx_value = v,
                                   tx_blockNumber = blockNumber,
                                   tx_timestamp = timestamp\<rparr>))))"

fun map_tx :: "env \<Rightarrow> json list \<Rightarrow> Transaction list outcome" where
  "map_tx env [] = Returns []"
| "map_tx env (tx # rest) =
     (case mk_tx env tx of
        Throws e \<Rightarrow> Throws e
      | Returns t \<Rightarrow>
          (case map_tx env rest of
             Throws e \<Rightarrow> Throws e
           | Returns ts \<Rightarrow> Returns (t # ts)))"

definition etherscanUrl :: "env \<Rightarrow> jsstring \<Rightarrow> jsstring" where
  "etherscanUrl env a =
     ascii ''https://api.etherscan.io/api?module=account&action=txlist&address='' @ a
     @ ascii ''&startblock=0&endblock=99999999&page=1&offset=10&sort=desc&apikey=''
     @ (if truthy_str (VITE_ETHERSCAN_API_KEY env)
        then String_opt (VITE_ETHERSCAN_API_KEY env) else ascii ''YourApiKeyToken'')"

text \<open>
  \<^verbatim>\<open>`... ${data.message || 'Unknown error'}`\<close>: the message when it is truthy, converted
  to a string by the template literal, which may throw.
\<close>

definition message_text :: "env \<Rightarrow> json \<Rightarrow> jsstring outcome" where
  "message_text env data =
     (case get_prop data (ascii ''message'') of
        None \<Rightarrow> Returns (ascii ''Unknown error'')
      | Some m \<Rightarrow>
          if truthy m then ToString_json env m else Returns (ascii ''Unknown error''))"

text \<open>The \<open>else\<close> branch: the log line is built first, then the two calls are made.\<close>

definition no_history :: "env \<Rightarrow> json \<Rightarrow> run" where
  "no_history env data =
     (case message_text env data of
        Throws e \<Rightarrow> raise e
      | Returns m \<Rightarrow>
          emit [AddLog Info (ascii ''No transactions found or Etherscan API error: '' @ m),
                SetTransactions []])"

text \<open>What is done with the parsed body; reading \<open>data.status\<close> of \<open>null\<close> throws.\<close>

definition handle_data :: "env \<Rightarrow> json \<Rightarrow> run" where
  "handle_data env data =
     (if data = JNull then raise (Printable (nullPropertyError env (ascii ''status'')))
      else if get_prop data (ascii ''status'') = Some (JStr (ascii ''1'')) then
        (case get_prop data (ascii ''result'') of
           Some (JArr records) \<Rightarrow>
             (case map_tx env records of
                Throws e \<Rightarrow> raise e
              | Returns txsWithDetails \<Rightarrow>
                  emit [SetTransactions txsWithDetails,
                        AddLog Info (ascii ''Found '' @ show_nat (length txsWithDetails)
                                     @ ascii '' recent transactions'')])
         | _ \<Rightarrow> no_history env data)
      else no_history env data)"

text \<open>The body of the \<open>try\<close> of the history.\<close>

definition history_body :: "env \<Rightarrow> jsstring \<Rightarrow> run" where
  "history_body env a =
     seq (emit [AddLog Info (ascii ''Fetching recent transactions from Etherscan...''),
                Await (Fetch (etherscanUrl env a))])
       (case fetch env (etherscanUrl env a) of
          Throws e \<Rightarrow> raise e
        | Returns response \<Rightarrow>
            seq (emit [Await ResponseJson])
              (case response of
                 Throws e \<Rightarrow> raise e
               | Returns data \<Rightarrow> handle_data env data))"

text \<open>
  \<^verbatim>\<open>catch (txHistoryErr) {
    addLog('error', `Failed to fetch transaction history: ${String(txHistoryErr)}`)
    setTransactions([]) }\<close>
  When \<open>String(txHistoryErr)\<close> throws, neither call is made.
\<close>

definition history_failed :: "thrown \<Rightarrow> run" where
  "history_failed err =
     (case String_of err of
        Returns s \<Rightarrow>
          emit [AddLog Error (ascii ''Failed to fetch transaction history: '' @ s),
                SetTransactions []]
      | Throws e \<Rightarrow> raise e)"

definition transactions_step :: "env \<Rightarrow> jsstring \<Rightarrow> run" where
  "transactions_step env a = try_catch (history_body env a) history_failed"

text \<open>The resolver block: the resolver is fetched, and its steps run when there is one.\<close>

definition resolver_block :: "env \<Rightarrow> jsstring \<Rightarrow> run" where
  "resolver_block env name =
     (case getResolver_step env name of
        (r, resolver) \<Rightarrow>
          seq r (case resolver of None \<Rightarrow> emit [] | Some rs \<Rightarrow> resolver_steps rs))"

text \<open>Everything after the short-circuit test, for the resolved address \<open>a\<close>.\<close>

definition after_resolution :: "env \<Rightarrow> jsstring \<Rightarrow> jsstring \<Rightarrow> run" where
  "after_resolution env name a =
     seq (balance_step env a)
       (seq (code_step env a)
          (seq (txcount_step env a)
             (seq (reverse_step env a)
                (seq (resolver_block env name)
                   (if a \<noteq> [] then transactions_step env a else emit [])))))"

text \<open>
  The body of the outer \<open>try\<close>. The provider is made and the input classified outside
  every inner \<open>try\<close>: a throw there leaves the block. \<open>!resolvedAddress\<close> holds for
  \<open>null\<close> and for the empty string, and the \<open>return\<close> ends the block.
\<close>

definition no_address :: "jsstring \<Rightarrow> effect list" where
  "no_address name = [AddLog Error (ascii ''No address available for '' @ name), SetProfile None]"

definition try_block :: "env \<Rightarrow> jsstring \<Rightarrow> run" where
  "try_block env name =
     (case newProvider env of
        Throws e \<Rightarrow> raise e
      | Returns provider \<Rightarrow>
          (case isAddress env name of
             Throws e \<Rightarrow> raise e
           | Returns isAddr \<Rightarrow>
               (case resolve_step env name isAddr of
                  (r, resolvedAddress) \<Rightarrow>
                    seq r
                      (seq (emit (namehash_step env name))
                         (case resolvedAddress of
                            None \<Rightarrow> (no_address name, Returned)
                          | Some a \<Rightarrow>
                              if a = [] then (no_address name, Returned)
                              else after_resolution env name a)))))"

definition preamble :: "jsstring \<Rightarrow> effect list" where
  "preamble name =
     [SetLoading True, SetProfile None, SetTransactions [], SetShowModal True,
      AddLog Info (ascii ''Resolving ENS name: '' @ name)]"

text \<open>
  \<^verbatim>\<open>async function doLookup(name) {
    if (!name) return
    ...
    try { ... } catch (err) { addLog('error', `Lookup failed: ${String(err)}`) }
    finally { setLoading(false) } }\<close>
  A completion \<open>Thrown\<close> of the whole run is a rejected promise.
\<close>

definition doLookup_run :: "env \<Rightarrow> jsstring \<Rightarrow> run" where
  "doLookup_run env name =
     (if name = [] then ([], Returned)
      else seq (emit (preamble name))
             (try_finally
                (try_catch (try_block env name) (log_failure (ascii ''Lookup failed: '')))
                (emit [SetLoading False])))"

definition doLookup :: "env \<Rightarrow> jsstring \<Rightarrow> state \<Rightarrow> state" where
  "doLookup env name s = run_effects env s (fst (doLookup_run env name))"

subsection \<open>Vocabulary of the claims\<close>

text \<open>Name resolution yields no address and the lookup goes on to the short-circuit:
  \<open>resolveName\<close> returns \<open>null\<close> or the empty string, or it throws and the handler
  logs the failure. When \<open>String\<close> of the thrown value throws in that handler, the
  exception leaves the \<open>try\<close> block instead.\<close>

definition resolves_nothing :: "env \<Rightarrow> jsstring \<Rightarrow> bool" where
  "resolves_nothing env name =
     (case resolveName env name of
        Throws e \<Rightarrow> (case String_of e of Returns s \<Rightarrow> True | Throws e' \<Rightarrow> False)
      | Returns r \<Rightarrow> \<not> truthy_str r)"

text \<open>What a text-record fetch gives the profile: nothing when it throws or returns
  \<open>null\<close> or the empty string.\<close>

definition fetched :: "jsstring option outcome \<Rightarrow> jsstring option" where
  "fetched res =
     (case res of
        Throws e \<Rightarrow> None
      | Returns None \<Rightarrow> None
      | Returns (Some v) \<Rightarrow> if v \<noteq> [] then Some v else None)"

text \<open>The four profile fields that come from text records, in the order the source
  fetches them: name, url, avatar, description. The profile \<open>null\<close> has none of them.\<close>

definition text_fields ::
  "Profile option \<Rightarrow> jsstring option \<times> jsstring option \<times> jsstring option \<times> jsstring option" where
  "text_fields p =
     (case p of
        None \<Rightarrow> (None, None, None, None)
      | Some q \<Rightarrow> (p_name q, p_url q, p_avatar q, p_description q))"

text \<open>Effects that leave the four text fields of the profile as they are, from any
  state.\<close>

definition keeps_text :: "effect list \<Rightarrow> bool" where
  "keeps_text evs =
     (\<forall>env s. text_fields (profile (run_effects env s evs)) = text_fields (profile s))"

text \<open>A call returns.\<close>

definition returns :: "'a outcome \<Rightarrow> bool" where
  "returns res = (case res of Throws e \<Rightarrow> False | Returns v \<Rightarrow> True)"






subsection \<open>Example collaborators\<close>

text \<open>
  Answers for one name and one address, to run the lookup on: \<open>vitalik.eth\<close> resolves to
  \<open>addr0\<close>, which holds one ether and has one transaction in its history.
\<close>

definition addr0 :: jsstring where
  "addr0 = ascii ''0xd8dA6BF26964aF9D7eEd9e03E53415D37aA96045''"

definition resolver0 :: Resolver where
  "resolver0 =
     \<lparr>r_address = Some (ascii ''0x231b0Ee14048e9dCcD1d247744d114a4EB5E8E63''),
      r_getContentHash = Some (Returns None),
      r_getText = (\<lambda>key.
         if key = ascii ''name'' then Returns (Some (ascii ''Vitalik''))
         else if key = ascii ''url'' then Returns (Some [])
         else if key = ascii ''avatar'' then Throws (Printable (ascii ''Error: call revert exception''))
         else if key = ascii ''description'' then Returns (Some (ascii ''mi pinxe lo crino tcati''))
         else Returns None),
      r_getAddress = Some (\<lambda>coin. if coin = Some 61 then Throws (Printable (ascii ''Error: unsupported coin''))
                                    else Returns (Some addr0)),
      r_addr = None\<rparr>"

definition record0 :: json where
  "record0 = JObj [(ascii ''hash'', JStr (ascii ''0xabc'')),
                   (ascii ''from'', JStr addr0),
                   (ascii ''to'', JNull),
                   (ascii ''value'', JStr (ascii ''1000000000000000000'')),
                   (ascii ''blockNumber'', JStr (ascii ''19000000'')),
                   (ascii ''timeStamp'', JStr (ascii ''1700000000''))]"

definition response0 :: json where
  "response0 = JObj [(ascii ''status'', JStr (ascii ''1'')),
                     (ascii ''message'', JStr (ascii ''OK'')),
                     (ascii ''result'', JArr [record0])]"

text \<open>The value \<open>Object.create(null)\<close>: \<open>String\<close> of it throws a TypeError.\<close>

definition nullProto :: thrown where
  "nullProto = Unprintable (Printable (ascii ''TypeError: Cannot convert object to primitive value''))"

definition env0 :: env where
  "env0 =
     \<lparr>newProvider = Returns (),
      isAddress = (\<lambda>s. Returns (s = addr0)),
      resolveName = (\<lambda>n. if n = ascii ''vitalik.eth'' then Returns (Some addr0) else Returns None),
      namehash = (\<lambda>n. if n = addr0 then Throws (Printable (ascii ''Error: invalid ENS name''))
                       else Returns (ascii ''0xee6c4522'')),
      getBalance = (\<lambda>a. Returns 1000000000000000000),
      formatEther = (\<lambda>v.
         if v = BigIntV 1000000000000000000
            \<or> v = RawV (Some (JStr (ascii ''1000000000000000000'')))
         then Returns (ascii ''1.0'')
         else Throws (Printable (ascii ''TypeError: invalid BigNumberish value''))),
      getCode = (\<lambda>a. Returns (ascii ''0x'')),
      getTransactionCount = (\<lambda>a. Returns 7),
      lookupAddress = (\<lambda>a. Returns (Some (ascii ''vitalik.eth''))),
      getResolver = (\<lambda>n. if n = ascii ''vitalik.eth'' then Returns (Some resolver0) else Returns None),
      fetch = (\<lambda>u. Returns (Returns response0)),
      numberToString = (\<lambda>m e. if m = 0 then ascii ''0'' else ascii ''1''),
      nullPropertyError = (\<lambda>p. ascii ''TypeError: Cannot read properties of null (reading '' @ p @ ascii '')''),
      toPrimitiveError = ascii ''TypeError: Cannot convert object to primitive value'',
      VITE_ETHERSCAN_API_KEY = None,
      now = (\<lambda>n. ascii ''2025-01-01T00:00:00.000Z'')\<rparr>"

definition state0 :: state where
  "state0 =
     \<lparr>logs = [],
      profile = Some (emptyProfile\<lparr>p_name := Some (ascii ''previous'')\<rparr>),
      transactions =
        [\<lparr>tx_hash = None, tx_from = None, tx_to = None, tx_value = ascii ''0.5'',
          tx_blockNumber = Integer 1, tx_timestamp = NaN\<rparr>],
      loading = False,
      showModal = False\<rparr>"

section \<open>Properties of the graph parser\<close>

subsection \<open>The backtracking matcher on pairRegex\<close>

lemma takeWhile_nth_P: "j < length (takeWhile P xs) \<Longrightarrow> P (xs ! j)"
proof -
  assume j: "j < length (takeWhile P xs)"
  then have "takeWhile P xs ! j \<in> set (takeWhile P xs)" by simp
  then have "P (takeWhile P xs ! j)" by (blast dest: set_takeWhileD)
  with j show ?thesis by (simp add: takeWhile_nth)
qed

lemma greedy_short:
  assumes k: "\<And>t. k t \<noteq> None \<Longrightarrow> t \<noteq> [] \<and> hd t = c"
  shows "n < length (takeWhile (\<lambda>x. x \<noteq> c) s) \<Longrightarrow> greedy k s n = None"
proof (induction n)
  case 0
  then show ?case by simp
next
  case (Suc n)
  let ?L = "length (takeWhile (\<lambda>x. x \<noteq> c) s)"
  from Suc.prems have lt: "Suc n < ?L" .
  have "?L \<le> length s" by (rule length_takeWhile_le)
  with lt have len: "Suc n < length s" by simp
  from lt have ne: "s ! Suc n \<noteq> c" by (rule takeWhile_nth_P)
  from len have "drop (Suc n) s \<noteq> []" by simp
  moreover from len have "hd (drop (Suc n) s) = s ! Suc n" by (rule hd_drop_conv_nth)
  ultimately have "k (drop (Suc n) s) = None" using k ne by metis
  moreover from lt have "greedy k s n = None" by (simp add: Suc.IH)
  ultimately show ?case by simp
qed

lemma greedy_longest:
  assumes k: "\<And>t. k t \<noteq> None \<Longrightarrow> t \<noteq> [] \<and> hd t = c"
  shows "greedy k s (length (takeWhile (\<lambda>x. x \<noteq> c) s)) =
     (if takeWhile (\<lambda>x. x \<noteq> c) s = [] then None
      else (case k (dropWhile (\<lambda>x. x \<noteq> c) s) of
              Some (caps, rest) \<Rightarrow> Some (takeWhile (\<lambda>x. x \<noteq> c) s # caps, rest)
            | None \<Rightarrow> None))"
proof (cases "length (takeWhile (\<lambda>x. x \<noteq> c) s)")
  case 0
  then show ?thesis by simp
next
  case (Suc n)
  then have "n < length (takeWhile (\<lambda>x. x \<noteq> c) s)" by simp
  with k have short: "greedy k s n = None" by (rule greedy_short)
  have t: "take (Suc n) s = takeWhile (\<lambda>x. x \<noteq> c) s"
    using takeWhile_eq_take [of "\<lambda>x. x \<noteq> c" s] Suc by simp
  have d: "drop (Suc n) s = dropWhile (\<lambda>x. x \<noteq> c) s"
    using dropWhile_eq_drop [of "\<lambda>x. x \<noteq> c" s] Suc by simp
  from Suc have ne: "takeWhile (\<lambda>x. x \<noteq> c) s \<noteq> []" by auto
  show ?thesis
    unfolding Suc greedy.simps t d short using ne by (simp split: option.splits)
qed

lemma rmatch_Lit_head: "rmatch (Lit c # as) t \<noteq> None \<Longrightarrow> t \<noteq> [] \<and> hd t = c"
  by (cases t) (auto split: if_splits)

lemma rmatch_pairRegex:
  "rmatch pairRegex s =
     (case pair_here s of Some (t1, t2, rest) \<Rightarrow> Some ([t1, t2], rest) | None \<Rightarrow> None)"
proof (cases s)
  case Nil
  then show ?thesis by (simp add: pairRegex_def pair_here_def)
next
  case (Cons x s1)
  let ?k2 = "rmatch [Lit RPAREN]"
  let ?k1 = "rmatch [Lit COMMA, GroupNotPlus RPAREN, Lit RPAREN]"
  have g2: "\<And>s2. greedy ?k2 s2 (length (takeWhile (\<lambda>x. x \<noteq> RPAREN) s2)) =
     (if takeWhile (\<lambda>x. x \<noteq> RPAREN) s2 = [] then None
      else (case ?k2 (dropWhile (\<lambda>x. x \<noteq> RPAREN) s2) of
              Some (caps, rest) \<Rightarrow> Some (takeWhile (\<lambda>x. x \<noteq> RPAREN) s2 # caps, rest)
            | None \<Rightarrow> None))"
    by (rule greedy_longest) (rule rmatch_Lit_head)
  have g1: "greedy ?k1 s1 (length (takeWhile (\<lambda>x. x \<noteq> COMMA) s1)) =
     (if takeWhile (\<lambda>x. x \<noteq> COMMA) s1 = [] then None
      else (case ?k1 (dropWhile (\<lambda>x. x \<noteq> COMMA) s1) of
              Some (caps, rest) \<Rightarrow> Some (takeWhile (\<lambda>x. x \<noteq> COMMA) s1 # caps, rest)
            | None \<Rightarrow> None))"
    by (rule greedy_longest) (rule rmatch_Lit_head)
  have k2: "\<And>t. ?k2 t = (case t of [] \<Rightarrow> None | y # t' \<Rightarrow> if y = RPAREN then Some ([], t') else None)"
    by (simp split: list.splits)
  have k1: "\<And>t. ?k1 t = (case t of [] \<Rightarrow> None | y # s2 \<Rightarrow>
      if y = COMMA then greedy ?k2 s2 (length (takeWhile (\<lambda>x. x \<noteq> RPAREN) s2)) else None)"
    by (simp split: list.splits)
  have hd1: "\<And>y s2. dropWhile (\<lambda>c. c \<noteq> COMMA) s1 = y # s2 \<Longrightarrow> y = COMMA"
    using hd_dropWhile [of "\<lambda>c. c \<noteq> COMMA" s1] by auto
  have hd2: "\<And>s2 y s3. dropWhile (\<lambda>c. c \<noteq> RPAREN) s2 = y # s3 \<Longrightarrow> y = RPAREN"
  proof -
    fix s2 :: jsstring and y s3
    assume "dropWhile (\<lambda>c. c \<noteq> RPAREN) s2 = y # s3"
    then show "y = RPAREN" using hd_dropWhile [of "\<lambda>c. c \<noteq> RPAREN" s2] by auto
  qed
  have start: "rmatch pairRegex (x # s1) =
      (if x = LPAREN then greedy ?k1 s1 (length (takeWhile (\<lambda>x. x \<noteq> COMMA) s1)) else None)"
    by (simp add: pairRegex_def)
  let ?T1 = "takeWhile (\<lambda>c. c \<noteq> COMMA) s1"
  let ?D1 = "dropWhile (\<lambda>c. c \<noteq> COMMA) s1"
  show ?thesis
  proof (cases "x \<noteq> LPAREN \<or> ?T1 = []")
    case True
    then show ?thesis unfolding Cons start g1 by (auto simp: pair_here_def)
  next
    case open1: False
    show ?thesis
    proof (cases ?D1)
      case d1: Nil
      from open1 show ?thesis unfolding Cons start g1 k1 pair_here_def list.case d1 by simp
    next
      case d1: (Cons y s2)
      then have y: "y = COMMA" by (rule hd1)
      let ?T2 = "takeWhile (\<lambda>c. c \<noteq> RPAREN) s2"
      let ?D2 = "dropWhile (\<lambda>c. c \<noteq> RPAREN) s2"
      show ?thesis
      proof (cases "?T2 = []")
        case True
        with open1 y show ?thesis unfolding Cons start g1 k1 g2 pair_here_def list.case d1 by simp
      next
        case t2: False
        show ?thesis
        proof (cases ?D2)
          case d2: Nil
          from open1 y t2 show ?thesis
            unfolding Cons start g1 k1 g2 k2 pair_here_def list.case d1 d2 by simp
        next
          case d2: (Cons z s3)
          then have "z = RPAREN" by (rule hd2)
          with open1 y t2 show ?thesis
            unfolding Cons start g1 k1 g2 k2 pair_here_def list.case d1 d2 by simp
        qed
      qed
    qed
  qed
qed

lemma exec_pairRegex_Nil: "exec pairRegex [] = None"
  by (simp add: rmatch_pairRegex pair_here_def)

lemma exec_pairRegex_Cons:
  "exec pairRegex (x # xs) =
     (case pair_here (x # xs) of
        Some (t1, t2, rest) \<Rightarrow> Some ([take (Suc (length xs) - length rest) (x # xs), t1, t2], rest)
      | None \<Rightarrow> exec pairRegex xs)"
  by (simp add: rmatch_pairRegex split: option.splits)

lemma exec_pairRegex_groups: "exec pairRegex s = Some (m, rest) \<Longrightarrow> length m = 3"
proof (induction s)
  case Nil
  then show ?case by (simp add: exec_pairRegex_Nil del: exec.simps)
next
  case (Cons x xs)
  then show ?case
    by (cases "pair_here (x # xs)") (auto simp: exec_pairRegex_Cons simp del: exec.simps)
qed

declare matchLoop.simps [simp del]

lemma matchLoop_Nil: "matchLoop [] = []"
  using matchLoop.simps [of "[]"] by (simp add: exec_pairRegex_Nil del: exec.simps)

lemma matchLoop_Cons:
  "matchLoop (x # xs) =
     (case pair_here (x # xs) of
        Some (t1, t2, rest) \<Rightarrow> (trim t1, trim t2) # matchLoop rest
      | None \<Rightarrow> matchLoop xs)"
proof (cases "pair_here (x # xs)")
  case None
  have "matchLoop (x # xs) = (case exec pairRegex xs of None \<Rightarrow> []
      | Some (m, rest) \<Rightarrow> (trim (m ! 1), trim (m ! 2)) # matchLoop rest)"
    using matchLoop.simps [of "x # xs"] by (simp add: exec_pairRegex_Cons None del: exec.simps)
  also have "\<dots> = matchLoop xs" by (rule matchLoop.simps [symmetric])
  finally show ?thesis using None by simp
next
  case (Some r)
  obtain t1 t2 rest where r: "r = (t1, t2, rest)" by (cases r)
  show ?thesis
    using matchLoop.simps [of "x # xs"] by (simp add: exec_pairRegex_Cons Some r del: exec.simps)
qed

lemma matchLoop_scan_pairs: "matchLoop s = scan_pairs s"
proof (induction s rule: scan_pairs.induct)
  case 1
  show ?case by (simp add: matchLoop_Nil)
next
  case (2 x xs)
  then show ?case by (simp add: matchLoop_Cons split: option.splits)
qed


lemma set_trim: "set (trim s) \<subseteq> set s"
proof -
  have "set (trim s) = set (dropWhile is_ws (rev (dropWhile is_ws s)))"
    by (simp add: trim_def)
  also have "\<dots> \<subseteq> set (rev (dropWhile is_ws s))"
    by (auto dest: set_dropWhileD)
  also have "\<dots> \<subseteq> set s"
    by (auto dest: set_dropWhileD)
  finally show ?thesis .
qed

lemma pair_here_tokens:
  assumes "pair_here s = Some (t1, t2, rest)"
  shows "t1 \<noteq> [] \<and> t2 \<noteq> [] \<and> COMMA \<notin> set t1 \<and> RPAREN \<notin> set t2"
proof -
  from assms obtain x s1 where s: "s = x # s1"
    by (cases s) (auto simp: pair_here_def)
  from assms s obtain y s2 where d1: "dropWhile (\<lambda>c. c \<noteq> COMMA) s1 = y # s2"
    by (auto simp: pair_here_def split: if_splits list.splits)
  from assms s d1 have t1: "t1 = takeWhile (\<lambda>c. c \<noteq> COMMA) s1" and t2: "t2 = takeWhile (\<lambda>c. c \<noteq> RPAREN) s2"
    and ne: "t1 \<noteq> []" "t2 \<noteq> []"
    by (auto simp: pair_here_def split: if_splits list.splits)
  from t1 have "COMMA \<notin> set t1" by (auto dest: set_takeWhileD)
  moreover from t2 have "RPAREN \<notin> set t2" by (auto dest: set_takeWhileD)
  ultimately show ?thesis using ne by simp
qed

lemma scan_pairs_tokens:
  "(a, b) \<in> set (scan_pairs s) \<Longrightarrow> COMMA \<notin> set a \<and> RPAREN \<notin> set b"
proof (induction s rule: scan_pairs.induct)
  case 1
  then show ?case by simp
next
  case (2 x xs)
  show ?case
  proof (cases "pair_here (x # xs)")
    case None
    with 2 show ?thesis by simp
  next
    case (Some r)
    obtain t1 t2 rest where r: "r = (t1, t2, rest)" by (cases r)
    from Some r have ph: "pair_here (x # xs) = Some (t1, t2, rest)" by simp
    from "2.prems" ph have "(a, b) = (trim t1, trim t2) \<or> (a, b) \<in> set (scan_pairs rest)"
      by simp
    then show ?thesis
    proof
      assume "(a, b) = (trim t1, trim t2)"
      with pair_here_tokens [OF ph] set_trim [of t1] set_trim [of t2] show ?thesis by auto
    next
      assume "(a, b) \<in> set (scan_pairs rest)"
      with "2.IH"(2) [OF ph refl refl] show ?thesis by simp
    qed
  qed
qed

lemma filter_removeAll_not: "\<not> P x \<Longrightarrow> filter P (removeAll x ys) = filter P ys"
  by (induction ys) auto

lemma removeAll_filter: "removeAll x (filter P ys) = filter P (removeAll x ys)"
  by (induction ys) auto

lemma first_seen_filter: "first_seen (filter P xs) = filter P (first_seen xs)"
proof (induction xs)
  case Nil
  show ?case by simp
next
  case (Cons x xs)
  show ?case
  proof (cases "P x")
    case True
    with Cons show ?thesis by (simp add: removeAll_filter)
  next
    case False
    with Cons show ?thesis by (simp add: filter_removeAll_not)
  qed
qed

lemma first_seen_removeAll: "first_seen (removeAll x xs) = removeAll x (first_seen xs)"
  by (simp add: removeAll_filter_not_eq first_seen_filter)

lemma set_first_seen: "set (first_seen xs) = set xs"
  by (induction xs) auto

lemma distinct_first_seen: "distinct (first_seen xs)"
  by (induction xs) (auto simp: distinct_removeAll)

lemma foldl_set_add:
  "foldl set_add acc ts = acc @ first_seen (filter (\<lambda>t. t \<notin> set acc) ts)"
proof (induction ts arbitrary: acc)
  case Nil
  show ?case by simp
next
  case (Cons t ts)
  show ?case
  proof (cases "t \<in> set acc")
    case True
    then have "set_add acc t = acc" by (simp add: set_add_def)
    with True show ?thesis by (simp add: Cons)
  next
    case False
    then have add: "set_add acc t = acc @ [t]" by (simp add: set_add_def)
    have h: "filter (\<lambda>u. u \<notin> set (acc @ [t])) ts = removeAll t (filter (\<lambda>u. u \<notin> set acc) ts)"
      by (induction ts) auto
    have "first_seen (filter (\<lambda>u. u \<notin> set (acc @ [t])) ts)
        = removeAll t (first_seen (filter (\<lambda>u. u \<notin> set acc) ts))"
      unfolding h by (rule first_seen_removeAll)
    with False add show ?thesis by (simp add: Cons)
  qed
qed

lemma nodeSet_foldl: "foldl (\<lambda>ns (from, to). set_add (set_add ns from) to) acc pairs
    = foldl set_add acc (tokens_of pairs)"
  by (induction pairs arbitrary: acc) (auto simp: tokens_of_def)

lemma nodeSet_first_seen: "nodeSet pairs = first_seen (tokens_of pairs)"
  by (simp add: nodeSet_def nodeSet_foldl foldl_set_add)

lemma map_node_id_enumerate: "map node_id (map mk_node (enumerate n xs)) = xs"
  by (induction xs arbitrary: n) (auto simp: mk_node_def)

subsection \<open>Nodes and edges\<close>

lemmas lit_defs = ascii_def LPAREN_def RPAREN_def COMMA_def

lemma nodes_parseGraphInput:
  "nodes (parseGraphInput input) = map mk_node (enumerate 0 (first_seen (tokens_of (matchLoop input))))"
  by (simp add: parseGraphInput_def nodeSet_first_seen Let_def)

lemma edges_parseGraphInput: "edges (parseGraphInput input) = map mk_edge (matchLoop input)"
  by (simp add: parseGraphInput_def Let_def)

lemma set_tokens_of: "set (tokens_of pairs) = fst ` set pairs \<union> snd ` set pairs"
  by (induction pairs) (auto simp: tokens_of_def)

lemma node_ids: "map node_id (nodes (parseGraphInput input)) = first_seen (tokens_of (matchLoop input))"
  by (simp only: nodes_parseGraphInput map_node_id_enumerate)

lemma parseGraphInput_example:
  "parseGraphInput (ascii ''[(A,B),(C,D),(C,B),(D,A)]'') =
  \<lparr>nodes = [\<lparr>node_id = ascii ''A'', node_title = ascii ''A'', node_type = ascii ''empty'', node_x = 100, node_y = 100\<rparr>,
            \<lparr>node_id = ascii ''B'', node_title = ascii ''B'', node_type = ascii ''empty'', node_x = 300, node_y = 100\<rparr>,
            \<lparr>node_id = ascii ''C'', node_title = ascii ''C'', node_type = ascii ''empty'', node_x = 500, node_y = 100\<rparr>,
            \<lparr>node_id = ascii ''D'', node_title = ascii ''D'', node_type = ascii ''empty'', node_x = 700, node_y = 100\<rparr>],
   edges = [\<lparr>edge_source = ascii ''A'', edge_target = ascii ''B'', edge_type = ascii ''emptyEdge''\<rparr>,
            \<lparr>edge_source = ascii ''C'', edge_target = ascii ''D'', edge_type = ascii ''emptyEdge''\<rparr>,
            \<lparr>edge_source = ascii ''C'', edge_target = ascii ''B'', edge_type = ascii ''emptyEdge''\<rparr>,
            \<lparr>edge_source = ascii ''D'', edge_target = ascii ''A'', edge_type = ascii ''emptyEdge''\<rparr>]\<rparr>"
  by (simp add: parseGraphInput_def matchLoop.simps pairRegex_def trim_def is_ws_def lit_defs
      nodeSet_def set_add_def mk_node_def mk_edge_def enumerate_eq_zip upt_rec)

subsection \<open>Claim C2: the matched pairs\<close>

text \<open>
  Claim C2 says that both tokens of a matched pair are runs of characters holding neither a
  comma nor a close parenthesis. The pattern is \<open>\(([^,]+),([^)]+)\)\<close>: only the first
  group excludes the comma and only the second excludes the close parenthesis. On
  \<open>(a,b,c)\<close> the second token is \<open>b,c\<close>, and on \<open>(a)b,c)\<close> the first token is
  \<open>a)b\<close>.
\<close>

theorem parseGraphInput_pairs_counterexample:
  "matchLoop (ascii ''(a,b,c)'') = [(ascii ''a'', ascii ''b,c'')] \<and> COMMA \<in> set (ascii ''b,c'')
   \<and> matchLoop (ascii ''(a)b,c)'') = [(ascii ''a)b'', ascii ''c'')] \<and> RPAREN \<in> set (ascii ''a)b'')"
  by (simp add: matchLoop.simps pairRegex_def trim_def is_ws_def lit_defs)

text \<open>
  Claim C2, amended: for every input string, the matched pairs are exactly the
  non-overlapping substrings \<open>(token1,token2)\<close> found scanning left to right, where
  token1 is the longest run of characters other than a comma after the open parenthesis
  (non-empty, and it may hold parentheses) and token2 is the longest run of characters
  other than a close parenthesis after that comma (non-empty, and it may hold commas),
  each with its leading and trailing whitespace trimmed. The edges are these pairs in
  order; no first token holds a comma and no second token a close parenthesis.
\<close>

theorem parseGraphInput_pairs:
  "matchLoop input = scan_pairs input \<and>
   edges (parseGraphInput input) = map mk_edge (scan_pairs input) \<and>
   (\<forall>p \<in> set (matchLoop input). COMMA \<notin> set (fst p) \<and> RPAREN \<notin> set (snd p))"
proof -
  have "\<forall>p \<in> set (scan_pairs input). COMMA \<notin> set (fst p) \<and> RPAREN \<notin> set (snd p)"
  proof
    fix p assume "p \<in> set (scan_pairs input)"
    then have "(fst p, snd p) \<in> set (scan_pairs input)" by simp
    then show "COMMA \<notin> set (fst p) \<and> RPAREN \<notin> set (snd p)" by (rule scan_pairs_tokens)
  qed
  then show ?thesis by (simp add: matchLoop_scan_pairs edges_parseGraphInput)
qed

theorem parseGraphInput_pairs_witness:
  "(ascii ''a)'', ascii ''b, c'') \<in> set (matchLoop (ascii ''x( a) ,b, c )''))
   \<and> COMMA \<notin> set (ascii ''a)'') \<and> RPAREN \<notin> set (ascii ''b, c'')
   \<and> scan_pairs (ascii ''x( a) ,b, c )'') = [(ascii ''a)'', ascii ''b, c'')]"
proof -
  have m: "matchLoop (ascii ''x( a) ,b, c )'') = [(ascii ''a)'', ascii ''b, c'')]"
    by (simp add: matchLoop.simps pairRegex_def trim_def is_ws_def lit_defs)
  then have "(ascii ''a)'', ascii ''b, c'') \<in> set (matchLoop (ascii ''x( a) ,b, c )''))" by simp
  with parseGraphInput_pairs [of "ascii ''x( a) ,b, c )''"] m show ?thesis by auto
qed

subsection \<open>Claim C3: the nodes\<close>

text \<open>
  Claim C3: for every input string, the node list is the distinct tokens of all matched
  pairs, deduplicated by string equality in first-seen order, and the node at 0-based
  index \<open>i\<close> is placed at \<open>x = (i mod 5) * 200 + 100\<close> and
  \<open>y = floor(i / 5) * 150 + 100\<close>; the input \<open>[(A,B),(C,D),(C,B),(D,A)]\<close> yields
  the nodes A, B, C, D at (100,100), (300,100), (500,100), (700,100) and the edges
  (A,B), (C,D), (C,B), (D,A) in that order.
\<close>

theorem parseGraphInput_nodes:
  "map node_id (nodes (parseGraphInput input)) = first_seen (tokens_of (matchLoop input)) \<and>
   distinct (map node_id (nodes (parseGraphInput input))) \<and>
   (\<forall>i < length (nodes (parseGraphInput input)).
      node_title (nodes (parseGraphInput input) ! i) = node_id (nodes (parseGraphInput input) ! i) \<and>
      node_x (nodes (parseGraphInput input) ! i) = (i mod 5) * 200 + 100 \<and>
      node_y (nodes (parseGraphInput input) ! i) = (i div 5) * 150 + 100) \<and>
   parseGraphInput (ascii ''[(A,B),(C,D),(C,B),(D,A)]'') =
     \<lparr>nodes = [\<lparr>node_id = ascii ''A'', node_title = ascii ''A'', node_type = ascii ''empty'', node_x = 100, node_y = 100\<rparr>,
               \<lparr>node_id = ascii ''B'', node_title = ascii ''B'', node_type = ascii ''empty'', node_x = 300, node_y = 100\<rparr>,
               \<lparr>node_id = ascii ''C'', node_title = ascii ''C'', node_type = ascii ''empty'', node_x = 500, node_y = 100\<rparr>,
               \<lparr>node_id = ascii ''D'', node_title = ascii ''D'', node_type = ascii ''empty'', node_x = 700, node_y = 100\<rparr>],
      edges = [\<lparr>edge_source = ascii ''A'', edge_target = ascii ''B'', edge_type = ascii ''emptyEdge''\<rparr>,
               \<lparr>edge_source = ascii ''C'', edge_target = ascii ''D'', edge_type = ascii ''emptyEdge''\<rparr>,
               \<lparr>edge_source = ascii ''C'', edge_target = ascii ''B'', edge_type = ascii ''emptyEdge''\<rparr>,
               \<lparr>edge_source = ascii ''D'', edge_target = ascii ''A'', edge_type = ascii ''emptyEdge''\<rparr>]\<rparr>"
proof -
  let ?ids = "first_seen (tokens_of (matchLoop input))"
  have ids: "map node_id (nodes (parseGraphInput input)) = ?ids" by (rule node_ids)
  have dist: "distinct (map node_id (nodes (parseGraphInput input)))"
    unfolding ids by (rule distinct_first_seen)
  have coords: "\<forall>i < length (nodes (parseGraphInput input)).
      node_title (nodes (parseGraphInput input) ! i) = node_id (nodes (parseGraphInput input) ! i) \<and>
      node_x (nodes (parseGraphInput input) ! i) = (i mod 5) * 200 + 100 \<and>
      node_y (nodes (parseGraphInput input) ! i) = (i div 5) * 150 + 100"
    by (simp add: nodes_parseGraphInput nth_enumerate_eq mk_node_def)
  from ids dist coords parseGraphInput_example show ?thesis by (intro conjI)
qed

theorem parseGraphInput_nodes_witness:
  "(5::nat) < length (nodes (parseGraphInput (ascii ''(a,b) (c,a) (d,e) (f,b)''))) \<and>
   map node_id (nodes (parseGraphInput (ascii ''(a,b) (c,a) (d,e) (f,b)'')))
     = [ascii ''a'', ascii ''b'', ascii ''c'', ascii ''d'', ascii ''e'', ascii ''f''] \<and>
   node_x (nodes (parseGraphInput (ascii ''(a,b) (c,a) (d,e) (f,b)'')) ! 5) = 100 \<and>
   node_y (nodes (parseGraphInput (ascii ''(a,b) (c,a) (d,e) (f,b)'')) ! 5) = 250"
proof -
  let ?g = "parseGraphInput (ascii ''(a,b) (c,a) (d,e) (f,b)'')"
  have m: "matchLoop (ascii ''(a,b) (c,a) (d,e) (f,b)'') =
      [(ascii ''a'', ascii ''b''), (ascii ''c'', ascii ''a''), (ascii ''d'', ascii ''e''), (ascii ''f'', ascii ''b'')]"
    by (simp add: matchLoop.simps pairRegex_def trim_def is_ws_def lit_defs)
  have "map node_id (nodes ?g) = first_seen (tokens_of (matchLoop (ascii ''(a,b) (c,a) (d,e) (f,b)'')))"
    using parseGraphInput_nodes [of "ascii ''(a,b) (c,a) (d,e) (f,b)''"] by blast
  also have "\<dots> = [ascii ''a'', ascii ''b'', ascii ''c'', ascii ''d'', ascii ''e'', ascii ''f'']"
    unfolding m by (simp add: tokens_of_def lit_defs)
  finally have ids: "map node_id (nodes ?g) = [ascii ''a'', ascii ''b'', ascii ''c'', ascii ''d'', ascii ''e'', ascii ''f'']" .
  then have "length (map node_id (nodes ?g)) = 6" by simp
  then have len: "(5::nat) < length (nodes ?g)" by simp
  with parseGraphInput_nodes [of "ascii ''(a,b) (c,a) (d,e) (f,b)''"]
  have "node_x (nodes ?g ! 5) = (5 mod 5) * 200 + 100 \<and> node_y (nodes ?g ! 5) = (5 div 5) * 150 + 100"
    by blast
  with len ids show ?thesis by simp
qed

subsection \<open>Claim C9: edges and nodes cover each other\<close>

text \<open>
  Claim C9: for every input string, the source and the target of every returned edge are
  ids of returned nodes, every returned node's id is the source or the target of a
  returned edge, and an input with no matched pair yields no node and no edge.
\<close>

theorem parseGraphInput_closed_covering:
  "(\<forall>e \<in> set (edges (parseGraphInput input)).
      edge_source e \<in> node_id ` set (nodes (parseGraphInput input)) \<and>
      edge_target e \<in> node_id ` set (nodes (parseGraphInput input))) \<and>
   (\<forall>n \<in> set (nodes (parseGraphInput input)).
      \<exists>e \<in> set (edges (parseGraphInput input)). node_id n = edge_source e \<or> node_id n = edge_target e) \<and>
   (matchLoop input = [] \<longrightarrow> nodes (parseGraphInput input) = [] \<and> edges (parseGraphInput input) = [])"
proof -
  let ?g = "parseGraphInput input"
  have idset: "node_id ` set (nodes ?g) = fst ` set (matchLoop input) \<union> snd ` set (matchLoop input)"
    using node_ids [of input] set_first_seen [of "tokens_of (matchLoop input)"] set_tokens_of [of "matchLoop input"]
    by (metis set_map)
  have closed: "\<forall>e \<in> set (edges ?g). edge_source e \<in> node_id ` set (nodes ?g) \<and> edge_target e \<in> node_id ` set (nodes ?g)"
    unfolding idset by (force simp: edges_parseGraphInput mk_edge_def)
  have covering: "\<forall>n \<in> set (nodes ?g). \<exists>e \<in> set (edges ?g). node_id n = edge_source e \<or> node_id n = edge_target e"
  proof
    fix n assume "n \<in> set (nodes ?g)"
    then have "node_id n \<in> node_id ` set (nodes ?g)" by simp
    then have "node_id n \<in> fst ` set (matchLoop input) \<union> snd ` set (matchLoop input)" by (simp only: idset)
    then obtain p where p: "p \<in> set (matchLoop input)" "node_id n = fst p \<or> node_id n = snd p" by auto
    then have "mk_edge p \<in> set (edges ?g)" by (simp add: edges_parseGraphInput)
    moreover from p(2) have "node_id n = edge_source (mk_edge p) \<or> node_id n = edge_target (mk_edge p)"
      by (auto simp: mk_edge_def split: prod.splits)
    ultimately show "\<exists>e \<in> set (edges ?g). node_id n = edge_source e \<or> node_id n = edge_target e" by blast
  qed
  have empty: "matchLoop input = [] \<longrightarrow> nodes ?g = [] \<and> edges ?g = []"
    by (simp add: nodes_parseGraphInput edges_parseGraphInput tokens_of_def)
  from closed covering empty show ?thesis by (intro conjI)
qed

theorem parseGraphInput_closed_covering_witness:
  "edges (parseGraphInput (ascii ''(a,b) (c,a)'')) =
     [mk_edge (ascii ''a'', ascii ''b''), mk_edge (ascii ''c'', ascii ''a'')] \<and>
   ascii ''c'' \<in> node_id ` set (nodes (parseGraphInput (ascii ''(a,b) (c,a)''))) \<and>
   ascii ''a'' \<in> node_id ` set (nodes (parseGraphInput (ascii ''(a,b) (c,a)''))) \<and>
   matchLoop (ascii ''garbage, no parens'') = [] \<and>
   nodes (parseGraphInput (ascii ''garbage, no parens'')) = [] \<and>
   edges (parseGraphInput (ascii ''garbage, no parens'')) = []"
proof -
  let ?g = "parseGraphInput (ascii ''(a,b) (c,a)'')"
  have m: "matchLoop (ascii ''(a,b) (c,a)'') = [(ascii ''a'', ascii ''b''), (ascii ''c'', ascii ''a'')]"
    by (simp add: matchLoop.simps pairRegex_def trim_def is_ws_def lit_defs)
  have e: "edges ?g = [mk_edge (ascii ''a'', ascii ''b''), mk_edge (ascii ''c'', ascii ''a'')]"
    by (simp only: edges_parseGraphInput m list.map)
  then have "mk_edge (ascii ''c'', ascii ''a'') \<in> set (edges ?g)" by simp
  with parseGraphInput_closed_covering [of "ascii ''(a,b) (c,a)''"]
  have "edge_source (mk_edge (ascii ''c'', ascii ''a'')) \<in> node_id ` set (nodes ?g) \<and>
        edge_target (mk_edge (ascii ''c'', ascii ''a'')) \<in> node_id ` set (nodes ?g)"
    by blast
  then have in_nodes: "ascii ''c'' \<in> node_id ` set (nodes ?g) \<and> ascii ''a'' \<in> node_id ` set (nodes ?g)"
    by (simp add: mk_edge_def)
  have g: "matchLoop (ascii ''garbage, no parens'') = []"
    by (simp add: matchLoop.simps pairRegex_def lit_defs)
  with parseGraphInput_closed_covering [of "ascii ''garbage, no parens''"]
  have "nodes (parseGraphInput (ascii ''garbage, no parens'')) = [] \<and>
        edges (parseGraphInput (ascii ''garbage, no parens'')) = []"
    by blast
  with e in_nodes g show ?thesis by simp
qed

section \<open>Properties of the lookup orchestrator\<close>

subsection \<open>Runs and states\<close>

lemma run_effects_Nil: "run_effects env s [] = s"
  by (simp add: run_effects_def)

lemma run_effects_Cons: "run_effects env s (e # evs) = run_effects env (apply_effect env s e) evs"
  by (simp add: run_effects_def)

lemma run_effects_append:
  "run_effects env s (xs @ ys) = run_effects env (run_effects env s xs) ys"
  by (simp add: run_effects_def)

lemma calls_append: "calls (xs @ ys) = calls xs @ calls ys"
  by (induction xs rule: calls.induct) auto

lemma log_lines_append: "log_lines (xs @ ys) = log_lines xs @ log_lines ys"
  by (induction xs rule: log_lines.induct) auto

lemma fst_emit: "fst (emit evs) = evs"
  by (simp add: emit_def)

lemma snd_emit: "snd (emit evs) = Normal"
  by (simp add: emit_def)

lemma fst_raise: "fst (raise e) = []"
  by (simp add: raise_def)

lemma snd_raise: "snd (raise e) = Thrown e"
  by (simp add: raise_def)

lemma fst_seq: "fst (seq a b) = fst a @ (if snd a = Normal then fst b else [])"
  by (cases a; cases "snd a") (auto simp: seq_def)

lemma snd_seq: "snd (seq a b) = (if snd a = Normal then snd b else snd a)"
  by (cases a; cases "snd a") (auto simp: seq_def)

lemma fst_try_catch:
  "fst (try_catch body handler) =
     fst body @ (case snd body of Thrown e \<Rightarrow> fst (handler e) | _ \<Rightarrow> [])"
  by (cases body; cases "snd body") (auto simp: try_catch_def)

lemma snd_try_catch:
  "snd (try_catch body handler) =
     (case snd body of Thrown e \<Rightarrow> snd (handler e) | c \<Rightarrow> c)"
  by (cases body; cases "snd body") (auto simp: try_catch_def)

lemma fst_log_failure:
  "fst (log_failure prefix err) =
     (case String_of err of Returns s \<Rightarrow> [AddLog Error (prefix @ s)] | Throws e \<Rightarrow> [])"
  by (simp add: log_failure_def emit_def raise_def split: outcome.splits)

lemma snd_log_failure:
  "snd (log_failure prefix err) =
     (case String_of err of Returns s \<Rightarrow> Normal | Throws e \<Rightarrow> Thrown e)"
  by (simp add: log_failure_def emit_def raise_def split: outcome.splits)

lemma doLookup_run_effects:
  "name \<noteq> [] \<Longrightarrow> fst (doLookup_run env name) =
     preamble name
     @ fst (try_catch (try_block env name) (log_failure (ascii ''Lookup failed: '')))
     @ [SetLoading False]"
  by (cases "try_catch (try_block env name) (log_failure (ascii ''Lookup failed: ''))")
     (simp add: doLookup_run_def seq_def try_finally_def emit_def)

lemma doLookup_run_completion:
  "snd (doLookup_run env name) =
     (if name = [] then Returned
      else snd (try_catch (try_block env name) (log_failure (ascii ''Lookup failed: ''))))"
  by (cases "try_catch (try_block env name) (log_failure (ascii ''Lookup failed: ''))")
     (simp add: doLookup_run_def seq_def try_finally_def emit_def)

lemma loading_run_last: "loading (run_effects env s (evs @ [SetLoading b])) = b"
  by (simp add: run_effects_append run_effects_Cons run_effects_Nil apply_effect_def)

subsection \<open>Claim C6: how the lookup completes\<close>

text \<open>
  Claim C6 says that the lookup never passes an exception on to its caller, whatever the
  collaborators do. The outer handler evaluates \<open>String(err)\<close>. When the provider
  constructor throws \<open>Object.create(null)\<close>, that throws a TypeError in the handler: no
  entry is logged and the promise is rejected. The same happens when \<open>resolveName\<close>
  throws a value whose \<open>toString\<close> throws \<open>Object.create(null)\<close>: first the inner
  handler throws, then the outer one.
\<close>

theorem doLookup_completion_counterexample:
  "snd (doLookup_run (env0\<lparr>newProvider := Throws nullProto\<rparr>) (ascii ''x.eth'')) =
     Thrown (Printable (ascii ''TypeError: Cannot convert object to primitive value'')) \<and>
   log_lines (fst (doLookup_run (env0\<lparr>newProvider := Throws nullProto\<rparr>) (ascii ''x.eth''))) =
     [(Info, ascii ''Resolving ENS name: x.eth'')] \<and>
   snd (doLookup_run (env0\<lparr>resolveName := (\<lambda>n. Throws (Unprintable nullProto))\<rparr>) (ascii ''x.eth'')) =
     Thrown (Printable (ascii ''TypeError: Cannot convert object to primitive value'')) \<and>
   log_lines (fst (doLookup_run (env0\<lparr>resolveName := (\<lambda>n. Throws (Unprintable nullProto))\<rparr>)
                     (ascii ''x.eth''))) =
     [(Info, ascii ''Resolving ENS name: x.eth'')]"
proof -
  let ?n = "ascii ''x.eth''"
  let ?e1 = "env0\<lparr>newProvider := Throws nullProto\<rparr>"
  let ?e2 = "env0\<lparr>resolveName := (\<lambda>n. Throws (Unprintable nullProto))\<rparr>"
  have n: "?n \<noteq> []" by (simp add: ascii_def)
  have t1: "try_block ?e1 ?n = ([], Thrown nullProto)"
    by (simp add: try_block_def raise_def)
  have ia: "isAddress env0 ?n = Returns False" by (simp add: env0_def addr0_def ascii_def)
  have np: "newProvider env0 = Returns ()" by (simp add: env0_def)
  have t2: "try_block ?e2 ?n = ([Await (ResolveName ?n)], Thrown nullProto)"
    by (simp add: try_block_def ia np resolve_step_def seq_def emit_def log_failure_def
        String_of_def raise_def)
  have c1: "try_catch (try_block ?e1 ?n) (log_failure (ascii ''Lookup failed: '')) =
      ([], Thrown (Printable (ascii ''TypeError: Cannot convert object to primitive value'')))"
    unfolding t1 by (simp add: try_catch_def log_failure_def String_of_def nullProto_def raise_def)
  have c2: "try_catch (try_block ?e2 ?n) (log_failure (ascii ''Lookup failed: '')) =
      ([Await (ResolveName ?n)],
       Thrown (Printable (ascii ''TypeError: Cannot convert object to primitive value'')))"
    unfolding t2 by (simp add: try_catch_def log_failure_def String_of_def nullProto_def raise_def)
  have p: "log_lines (preamble ?n) = [(Info, ascii ''Resolving ENS name: x.eth'')]"
    by (simp add: preamble_def ascii_def)
  have a: "snd (doLookup_run ?e1 ?n) =
      Thrown (Printable (ascii ''TypeError: Cannot convert object to primitive value''))"
    using n by (simp add: doLookup_run_completion c1)
  have b: "log_lines (fst (doLookup_run ?e1 ?n)) = [(Info, ascii ''Resolving ENS name: x.eth'')]"
    using n by (simp add: doLookup_run_effects c1 log_lines_append p)
  have c: "snd (doLookup_run ?e2 ?n) =
      Thrown (Printable (ascii ''TypeError: Cannot convert object to primitive value''))"
    using n by (simp add: doLookup_run_completion c2)
  have d: "log_lines (fst (doLookup_run ?e2 ?n)) = [(Info, ascii ''Resolving ENS name: x.eth'')]"
    using n by (simp add: doLookup_run_effects c2 log_lines_append p)
  from a b c d show ?thesis by (intro conjI)
qed

text \<open>
  Claim C6, amended: for every input and every behaviour of the collaborators, throws
  included, the lookup passes an exception on to its caller only when \<open>String(err)\<close>
  throws in the outer handler, for the value \<open>err\<close> that left the \<open>try\<close> block; then
  no entry is logged for it and the promise is rejected with what \<open>String\<close> threw. An
  exception that leaves the \<open>try\<close> block and can be rendered yields a single error log
  entry, and the lookup completes. On a non-empty input, whether the lookup succeeds,
  short-circuits, catches an exception or is rejected, clearing the in-progress flag is
  its final action.
\<close>

theorem doLookup_completion:
  "snd (doLookup_run env name) =
     (if name = [] then Returned
      else (case snd (try_block env name) of
              Thrown err \<Rightarrow> (case String_of err of Returns s \<Rightarrow> Normal | Throws e \<Rightarrow> Thrown e)
            | c \<Rightarrow> c)) \<and>
   (name \<noteq> [] \<longrightarrow>
      last (fst (doLookup_run env name)) = SetLoading False \<and>
      loading (doLookup env name s) = False) \<and>
   (name \<noteq> [] \<and> snd (try_block env name) = Thrown err \<and> String_of err = Returns txt \<longrightarrow>
      fst (doLookup_run env name) =
        preamble name @ fst (try_block env name)
        @ [AddLog Error (ascii ''Lookup failed: '' @ txt), SetLoading False] \<and>
      snd (doLookup_run env name) = Normal) \<and>
   (name \<noteq> [] \<and> snd (try_block env name) = Thrown err \<and> String_of err = Throws e \<longrightarrow>
      fst (doLookup_run env name) = preamble name @ fst (try_block env name) @ [SetLoading False] \<and>
      snd (doLookup_run env name) = Thrown e)"
proof -
  have c: "snd (doLookup_run env name) =
     (if name = [] then Returned
      else (case snd (try_block env name) of
              Thrown err \<Rightarrow> (case String_of err of Returns s \<Rightarrow> Normal | Throws e \<Rightarrow> Thrown e)
            | c \<Rightarrow> c))"
    by (simp add: doLookup_run_completion snd_try_catch snd_log_failure split: completion.splits)
  have l: "name \<noteq> [] \<longrightarrow>
      last (fst (doLookup_run env name)) = SetLoading False \<and> loading (doLookup env name s) = False"
  proof
    assume n: "name \<noteq> []"
    from doLookup_run_effects [OF n, of env] obtain evs where
      evs: "fst (doLookup_run env name) = evs @ [SetLoading False]"
      by (metis append.assoc)
    then have "loading (doLookup env name s) = False"
      by (simp only: doLookup_def loading_run_last)
    with evs show "last (fst (doLookup_run env name)) = SetLoading False \<and> loading (doLookup env name s) = False"
      by simp
  qed
  have t: "name \<noteq> [] \<and> snd (try_block env name) = Thrown err \<and> String_of err = Returns txt \<longrightarrow>
      fst (doLookup_run env name) =
        preamble name @ fst (try_block env name)
        @ [AddLog Error (ascii ''Lookup failed: '' @ txt), SetLoading False] \<and>
      snd (doLookup_run env name) = Normal"
    by (simp add: doLookup_run_effects doLookup_run_completion fst_try_catch snd_try_catch
        fst_log_failure snd_log_failure)
  have u: "name \<noteq> [] \<and> snd (try_block env name) = Thrown err \<and> String_of err = Throws e \<longrightarrow>
      fst (doLookup_run env name) = preamble name @ fst (try_block env name) @ [SetLoading False] \<and>
      snd (doLookup_run env name) = Thrown e"
    by (simp add: doLookup_run_effects doLookup_run_completion fst_try_catch snd_try_catch
        fst_log_failure snd_log_failure)
  from c l t u show ?thesis by (intro conjI)
qed

theorem doLookup_completion_witness:
  "ascii ''x.eth'' \<noteq> [] \<and>
   snd (try_block (env0\<lparr>newProvider := Throws (Printable (ascii ''Error: boom''))\<rparr>) (ascii ''x.eth''))
     = Thrown (Printable (ascii ''Error: boom'')) \<and>
   String_of (Printable (ascii ''Error: boom'')) = Returns (ascii ''Error: boom'') \<and>
   fst (doLookup_run (env0\<lparr>newProvider := Throws (Printable (ascii ''Error: boom''))\<rparr>) (ascii ''x.eth'')) =
     preamble (ascii ''x.eth'')
     @ [AddLog Error (ascii ''Lookup failed: '' @ ascii ''Error: boom''), SetLoading False] \<and>
   snd (doLookup_run (env0\<lparr>newProvider := Throws (Printable (ascii ''Error: boom''))\<rparr>) (ascii ''x.eth''))
     = Normal \<and>
   loading (doLookup (env0\<lparr>newProvider := Throws (Printable (ascii ''Error: boom''))\<rparr>) (ascii ''x.eth'')
              (state0\<lparr>loading := True\<rparr>)) = False \<and>
   snd (try_block (env0\<lparr>newProvider := Throws nullProto\<rparr>) (ascii ''x.eth'')) = Thrown nullProto \<and>
   String_of nullProto =
     Throws (Printable (ascii ''TypeError: Cannot convert object to primitive value'')) \<and>
   fst (doLookup_run (env0\<lparr>newProvider := Throws nullProto\<rparr>) (ascii ''x.eth'')) =
     preamble (ascii ''x.eth'') @ [SetLoading False]"
proof -
  let ?n = "ascii ''x.eth''"
  let ?env = "env0\<lparr>newProvider := Throws (Printable (ascii ''Error: boom''))\<rparr>"
  let ?env2 = "env0\<lparr>newProvider := Throws nullProto\<rparr>"
  have n: "?n \<noteq> []" by (simp add: ascii_def)
  have tb: "try_block ?env ?n = ([], Thrown (Printable (ascii ''Error: boom'')))"
    by (simp add: try_block_def raise_def)
  then have t: "snd (try_block ?env ?n) = Thrown (Printable (ascii ''Error: boom''))" by simp
  have st: "String_of (Printable (ascii ''Error: boom'')) = Returns (ascii ''Error: boom'')"
    by (simp add: String_of_def)
  note inst = doLookup_completion [of ?env ?n "state0\<lparr>loading := True\<rparr>"
      "Printable (ascii ''Error: boom'')" "ascii ''Error: boom''"]
  from inst n t st have "fst (doLookup_run ?env ?n) =
        preamble ?n @ fst (try_block ?env ?n)
        @ [AddLog Error (ascii ''Lookup failed: '' @ ascii ''Error: boom''), SetLoading False]"
    by blast
  then have e: "fst (doLookup_run ?env ?n) =
        preamble ?n @ [AddLog Error (ascii ''Lookup failed: '' @ ascii ''Error: boom''), SetLoading False]"
    unfolding tb by simp
  from inst n t st have c: "snd (doLookup_run ?env ?n) = Normal" by blast
  from inst n have l: "loading (doLookup ?env ?n (state0\<lparr>loading := True\<rparr>)) = False" by blast
  have tb2: "try_block ?env2 ?n = ([], Thrown nullProto)"
    by (simp add: try_block_def raise_def)
  then have t2: "snd (try_block ?env2 ?n) = Thrown nullProto" by simp
  have st2: "String_of nullProto =
      Throws (Printable (ascii ''TypeError: Cannot convert object to primitive value''))"
    by (simp add: String_of_def nullProto_def)
  note inst2 = doLookup_completion [of ?env2 ?n state0 nullProto _
      "Printable (ascii ''TypeError: Cannot convert object to primitive value'')"]
  from inst2 n t2 st2 have "fst (doLookup_run ?env2 ?n) =
      preamble ?n @ fst (try_block ?env2 ?n) @ [SetLoading False]"
    by blast
  then have e2: "fst (doLookup_run ?env2 ?n) = preamble ?n @ [SetLoading False]"
    unfolding tb2 by simp
  from n t st e c l t2 st2 e2 show ?thesis by (intro conjI)
qed

subsection \<open>The short-circuit\<close>

lemma resolve_step_nothing:
  assumes "resolves_nothing env name"
  shows "snd (fst (resolve_step env name False)) = Normal"
    and "\<not> truthy_str (snd (resolve_step env name False))"
  using assms
  by (auto simp: resolves_nothing_def resolve_step_def truthy_str_def snd_seq snd_emit
      snd_log_failure split: outcome.splits)

lemma try_block_short_circuit:
  assumes "newProvider env = Returns u" and "isAddress env name = Returns False"
    and "resolves_nothing env name"
  shows "try_block env name =
     (fst (fst (resolve_step env name False)) @ namehash_step env name @ no_address name, Returned)"
proof -
  obtain r ra where rs: "resolve_step env name False = (r, ra)"
    by (cases "resolve_step env name False")
  obtain evs c where r: "r = (evs, c)" by (cases r)
  from resolve_step_nothing [OF assms(3)] rs r have c: "c = Normal" and ra: "\<not> truthy_str ra"
    by simp_all
  from ra have "(case ra of None \<Rightarrow> (no_address name, Returned)
      | Some a \<Rightarrow> if a = [] then (no_address name, Returned) else after_resolution env name a)
      = (no_address name, Returned)"
    by (simp add: truthy_str_def split: option.splits)
  with assms(1,2) rs r c show ?thesis
    by (simp add: try_block_def seq_def emit_def)
qed

lemma calls_log_failure: "calls (fst (log_failure prefix err)) = []"
  by (simp add: fst_log_failure split: outcome.splits)


lemma calls_namehash_step: "calls (namehash_step env name) = []"
  by (simp add: namehash_step_def split: outcome.splits)

lemma SetTransactions_resolve_step:
  "SetTransactions txs \<notin> set (fst (fst (resolve_step env name b)))"
  by (simp add: resolve_step_def fst_seq fst_emit snd_emit fst_log_failure split: outcome.splits)

lemma SetTransactions_namehash_step: "SetTransactions txs \<notin> set (namehash_step env name)"
  by (simp add: namehash_step_def split: outcome.splits)



lemma short_circuit_effects:
  assumes "name \<noteq> []" and "newProvider env = Returns u" and "isAddress env name = Returns False"
    and "resolves_nothing env name"
  shows "fst (doLookup_run env name) =
     preamble name @ fst (fst (resolve_step env name False)) @ namehash_step env name
     @ [AddLog Error (ascii ''No address available for '' @ name), SetProfile None, SetLoading False]"
    and "snd (doLookup_run env name) = Returned"
  using assms
  by (simp_all add: doLookup_run_effects doLookup_run_completion try_block_short_circuit
      no_address_def fst_try_catch snd_try_catch)


lemma calls_preamble: "calls (preamble name) = []"
  by (simp add: preamble_def)


lemma run_effects_snoc_SetProfile:
  "profile (run_effects env s (evs @ [AddLog lvl txt, SetProfile p, SetLoading b])) = p"
  by (simp add: run_effects_append run_effects_Cons run_effects_Nil apply_effect_def)

subsection \<open>Claim C1: the short-circuit\<close>



subsection \<open>Claim C10: the reset at the start\<close>

lemma transactions_run_effects:
  "(\<And>txs. SetTransactions txs \<notin> set evs) \<Longrightarrow>
     transactions (run_effects env s evs) = transactions s"
proof (induction evs arbitrary: s)
  case Nil
  show ?case by (simp add: run_effects_Nil)
next
  case (Cons e evs)
  have "transactions (apply_effect env s e) = transactions s"
    using Cons.prems [of "case e of SetTransactions t \<Rightarrow> t | _ \<Rightarrow> []"]
    by (cases e) (simp_all add: apply_effect_def)
  moreover have "transactions (run_effects env (apply_effect env s e) evs)
      = transactions (apply_effect env s e)"
    using Cons.prems by (intro Cons.IH) auto
  ultimately show ?case by (simp add: run_effects_Cons)
qed

lemma transactions_run_preamble: "transactions (run_effects env s (preamble name)) = []"
  by (simp add: preamble_def run_effects_def apply_effect_def)

text \<open>
  Claim C10: for every non-empty input, the lookup's first state changes, made before any
  call of a collaborator, set the profile to \<open>null\<close> and the transaction sequence to
  empty (after the in-progress flag is raised); so after a short-circuited lookup the
  transaction sequence is empty, whatever it held before, although the short-circuit step
  itself only clears the profile: nothing after the start sets the transactions.
\<close>

theorem lookup_resets_first:
  assumes "name \<noteq> []"
  shows "fst (doLookup_run env name) =
           [SetLoading True, SetProfile None, SetTransactions [], SetShowModal True,
            AddLog Info (ascii ''Resolving ENS name: '' @ name)]
           @ drop 5 (fst (doLookup_run env name)) \<and>
         (newProvider env = Returns u \<and> isAddress env name = Returns False \<and>
          resolves_nothing env name \<longrightarrow>
            transactions (doLookup env name s) = [] \<and>
            profile (doLookup env name s) = None \<and>
            (\<forall>txs. SetTransactions txs \<notin> set (drop 5 (fst (doLookup_run env name)))))"
proof -
  have len: "length (preamble name) = 5" by (simp add: preamble_def)
  have "\<exists>rest. fst (doLookup_run env name) = preamble name @ rest"
    using doLookup_run_effects [OF assms, of env] by blast
  then obtain rest where rest: "fst (doLookup_run env name) = preamble name @ rest" ..
  with len have d: "drop 5 (fst (doLookup_run env name)) = rest" by simp
  have first: "fst (doLookup_run env name) =
      [SetLoading True, SetProfile None, SetTransactions [], SetShowModal True,
       AddLog Info (ascii ''Resolving ENS name: '' @ name)] @ drop 5 (fst (doLookup_run env name))"
    unfolding d unfolding rest by (simp add: preamble_def)
  have short: "newProvider env = Returns u \<and> isAddress env name = Returns False \<and>
      resolves_nothing env name \<longrightarrow>
        transactions (doLookup env name s) = [] \<and> profile (doLookup env name s) = None \<and>
        (\<forall>txs. SetTransactions txs \<notin> set (drop 5 (fst (doLookup_run env name))))"
  proof
    assume h: "newProvider env = Returns u \<and> isAddress env name = Returns False \<and>
      resolves_nothing env name"
    let ?tail = "fst (fst (resolve_step env name False)) @ namehash_step env name
       @ [AddLog Error (ascii ''No address available for '' @ name), SetProfile None, SetLoading False]"
    from h assms have eff: "fst (doLookup_run env name) = preamble name @ ?tail"
      by (simp add: short_circuit_effects(1))
    with rest have r: "rest = ?tail" by simp
    have none: "\<And>txs. SetTransactions txs \<notin> set ?tail"
      by (simp add: SetTransactions_resolve_step SetTransactions_namehash_step)
    have "transactions (doLookup env name s)
        = transactions (run_effects env (run_effects env s (preamble name)) ?tail)"
      unfolding doLookup_def eff by (simp only: run_effects_append)
    also have "\<dots> = transactions (run_effects env s (preamble name))"
      using none by (rule transactions_run_effects)
    also have "\<dots> = []" by (rule transactions_run_preamble)
    finally have t: "transactions (doLookup env name s) = []" .
    have "profile (doLookup env name s) = None"
      unfolding doLookup_def eff
      using run_effects_snoc_SetProfile
        [of env s "preamble name @ fst (fst (resolve_step env name False)) @ namehash_step env name"]
      by simp
    with t none show "transactions (doLookup env name s) = [] \<and> profile (doLookup env name s) = None \<and>
        (\<forall>txs. SetTransactions txs \<notin> set (drop 5 (fst (doLookup_run env name))))"
      unfolding d r by blast
  qed
  from first short show ?thesis by (rule conjI)
qed

theorem lookup_resets_first_witness:
  "ascii ''nobody.eth'' \<noteq> [] \<and> newProvider env0 = Returns () \<and>
   isAddress env0 (ascii ''nobody.eth'') = Returns False \<and>
   resolves_nothing env0 (ascii ''nobody.eth'') \<and>
   transactions state0 \<noteq> [] \<and>
   transactions (doLookup env0 (ascii ''nobody.eth'') state0) = [] \<and>
   profile (doLookup env0 (ascii ''nobody.eth'') state0) = None \<and>
   take 3 (fst (doLookup_run env0 (ascii ''nobody.eth'')))
     = [SetLoading True, SetProfile None, SetTransactions []]"
proof -
  let ?n = "ascii ''nobody.eth''"
  have h1: "?n \<noteq> []" by (simp add: ascii_def)
  have h2: "newProvider env0 = Returns ()" by (simp add: env0_def)
  have h3: "isAddress env0 ?n = Returns False" by (simp add: env0_def addr0_def ascii_def)
  have "resolveName env0 ?n = Returns None" by (simp add: env0_def ascii_def)
  then have h4: "resolves_nothing env0 ?n" by (simp add: resolves_nothing_def truthy_str_def)
  have s0: "transactions state0 \<noteq> []" by (simp add: state0_def)
  note inst = lookup_resets_first [OF h1, of env0 "()" state0]
  from inst have "take 3 (fst (doLookup_run env0 ?n)) =
      take 3 ([SetLoading True, SetProfile None, SetTransactions [], SetShowModal True,
            AddLog Info (ascii ''Resolving ENS name: '' @ ?n)]
           @ drop 5 (fst (doLookup_run env0 ?n)))"
    by simp
  then have t3: "take 3 (fst (doLookup_run env0 ?n)) = [SetLoading True, SetProfile None, SetTransactions []]"
    by simp
  from inst h1 h2 h3 h4 s0 t3 show ?thesis by blast
qed

subsection \<open>The calls of the steps after the resolution\<close>

lemma calls_seq_notin:
  "c \<notin> set (calls (fst a)) \<Longrightarrow> c \<notin> set (calls (fst b)) \<Longrightarrow> c \<notin> set (calls (fst (seq a b)))"
  by (simp add: fst_seq calls_append)

lemma calls_raise: "calls (fst (raise e)) = []"
  by (simp add: fst_raise)

lemma calls_history_failed: "calls (fst (history_failed err)) = []"
  by (simp add: history_failed_def fst_emit fst_raise split: outcome.splits)

lemma calls_no_history: "calls (fst (no_history env data)) = []"
  by (simp add: no_history_def fst_emit fst_raise split: outcome.splits)

lemma calls_handle_data: "calls (fst (handle_data env data)) = []"
  by (simp add: handle_data_def calls_no_history fst_emit fst_raise
      split: option.splits json.splits outcome.splits)

lemma calls_history_body:
  "set (calls (fst (history_body env a))) \<subseteq> {Fetch (etherscanUrl env a), ResponseJson}"
  by (auto simp: history_body_def fst_seq fst_emit snd_emit fst_raise calls_append
      calls_handle_data split: outcome.splits if_splits)

lemma calls_transactions_step:
  "set (calls (fst (transactions_step env a))) \<subseteq> {Fetch (etherscanUrl env a), ResponseJson}"
  using calls_history_body [of env a]
  by (auto simp: transactions_step_def fst_try_catch calls_append calls_history_failed
      split: completion.splits)

lemma calls_profile_fields:
  "calls (profile_fields r) =
     [GetText (ascii ''name''), GetText (ascii ''url''), GetText (ascii ''avatar''),
      GetText (ascii ''description'')]"
  by (simp add: profile_fields_def name_step_def url_step_def avatar_step_def description_step_def
      calls_append split: outcome.splits option.splits)

lemma calls_balance_step: "set (calls (fst (balance_step env a))) \<subseteq> {GetBalance a}"
  by (auto simp: balance_step_def fst_seq fst_emit snd_emit calls_append calls_log_failure
      split: outcome.splits if_splits)

lemma calls_code_step: "set (calls (fst (code_step env a))) \<subseteq> {GetCode a}"
  by (auto simp: code_step_def fst_seq fst_emit snd_emit calls_append calls_log_failure
      split: outcome.splits if_splits)

lemma calls_txcount_step: "set (calls (fst (txcount_step env a))) \<subseteq> {GetTransactionCount a}"
  by (auto simp: txcount_step_def fst_seq fst_emit snd_emit calls_append calls_log_failure
      split: outcome.splits if_splits)

lemma calls_reverse_step: "set (calls (fst (reverse_step env a))) \<subseteq> {LookupAddress a}"
  by (auto simp: reverse_step_def fst_seq fst_emit snd_emit calls_append calls_log_failure
      split: outcome.splits if_splits)

lemma calls_getResolver_step: "set (calls (fst (fst (getResolver_step env name)))) \<subseteq> {GetResolver name}"
  by (auto simp: getResolver_step_def fst_seq fst_emit snd_emit calls_append calls_log_failure
      split: outcome.splits option.splits if_splits)

lemma calls_contentHash_step: "set (calls (fst (contentHash_step r))) \<subseteq> {GetContentHash}"
  by (auto simp: contentHash_step_def fst_seq fst_emit snd_emit calls_append calls_log_failure
      split: outcome.splits option.splits if_splits)

lemma calls_resolverAddress_step:
  "set (calls (fst (resolverAddress_step r))) \<subseteq> {GetAddress None, Addr (ascii ''60'')}"
  by (auto simp: resolverAddress_step_def fst_seq fst_emit snd_emit calls_append calls_log_failure
      split: outcome.splits option.splits if_splits)

lemma calls_coin_step: "set (calls (fst (coin_step r coin))) \<subseteq> {GetAddress (Some coin)}"
  by (auto simp: coin_step_def fst_seq fst_emit snd_emit calls_append calls_log_failure
      split: outcome.splits option.splits if_splits)

lemma calls_coin_loop: "set (calls (fst (coin_loop r coins))) \<subseteq> (\<lambda>coin. GetAddress (Some coin)) ` set coins"
proof (induction coins)
  case Nil
  show ?case by (simp add: fst_emit)
next
  case (Cons coin rest)
  with calls_coin_step [of r coin] show ?case
    by (auto simp: fst_seq calls_append split: if_splits)
qed

lemma ResolveName_resolver_steps: "ResolveName n \<notin> set (calls (fst (resolver_steps r)))"
proof -
  have a: "ResolveName n \<notin> set (calls (fst (contentHash_step r)))"
    using calls_contentHash_step [of r] by auto
  have b: "ResolveName n \<notin> set (calls (fst (emit (profile_fields r))))"
    by (simp add: fst_emit calls_profile_fields)
  have c: "ResolveName n \<notin> set (calls (fst (resolverAddress_step r)))"
    using calls_resolverAddress_step [of r] by auto
  have d: "ResolveName n \<notin> set (calls (fst (coin_loop r coinTypes)))"
    using calls_coin_loop [of r coinTypes] by auto
  show ?thesis
    unfolding resolver_steps_def by (intro calls_seq_notin a b c d)
qed

lemma ResolveName_resolver_block: "ResolveName n \<notin> set (calls (fst (resolver_block env name)))"
proof -
  obtain g res where g: "getResolver_step env name = (g, res)" by (cases "getResolver_step env name")
  have a: "ResolveName n \<notin> set (calls (fst g))"
    using calls_getResolver_step [of env name] g by auto
  have b: "ResolveName n \<notin> set (calls (fst (case res of None \<Rightarrow> emit [] | Some rs \<Rightarrow> resolver_steps rs)))"
    by (simp add: fst_emit ResolveName_resolver_steps split: option.splits)
  show ?thesis
    unfolding resolver_block_def g prod.case by (intro calls_seq_notin a b)
qed

lemma ResolveName_after_resolution: "ResolveName n \<notin> set (calls (fst (after_resolution env name a)))"
proof -
  have b: "ResolveName n \<notin> set (calls (fst (balance_step env a)))"
    using calls_balance_step [of env a] by auto
  have c: "ResolveName n \<notin> set (calls (fst (code_step env a)))"
    using calls_code_step [of env a] by auto
  have t: "ResolveName n \<notin> set (calls (fst (txcount_step env a)))"
    using calls_txcount_step [of env a] by auto
  have r: "ResolveName n \<notin> set (calls (fst (reverse_step env a)))"
    using calls_reverse_step [of env a] by auto
  have h: "ResolveName n \<notin> set (calls (fst (if a \<noteq> [] then transactions_step env a else emit [])))"
    using calls_transactions_step [of env a] by (auto simp: fst_emit)
  show ?thesis
    unfolding after_resolution_def
    by (intro calls_seq_notin b c t r h ResolveName_resolver_block)
qed

lemma try_block_address:
  assumes "newProvider env = Returns u" and "isAddress env name = Returns True" and "name \<noteq> []"
  shows "try_block env name =
     (AddLog Info (ascii ''Input is an address: '' @ name) # namehash_step env name
      @ fst (after_resolution env name name), snd (after_resolution env name name))"
  using assms by (simp add: try_block_def resolve_step_def seq_def emit_def)

lemma try_catch_Cons: "try_catch (evs @ fst r, snd r) h = (evs @ fst (try_catch r h), snd (try_catch r h))"
  by (cases r; cases "snd r") (auto simp: try_catch_def)

subsection \<open>Claim C8: an address is not resolved\<close>

text \<open>
  Claim C8: for every non-empty input that matches the address format, step 2 takes the
  input itself as the resolved address, and the name-resolution call \<open>resolveName\<close> is
  never made during that lookup.
\<close>

theorem address_skips_resolveName:
  assumes "name \<noteq> []" and "isAddress env name = Returns True"
  shows "ResolveName n \<notin> set (calls (fst (doLookup_run env name))) \<and>
         (newProvider env = Returns u \<longrightarrow>
            fst (doLookup_run env name) =
              preamble name @ [AddLog Info (ascii ''Input is an address: '' @ name)]
              @ namehash_step env name
              @ fst (try_catch (after_resolution env name name)
                       (log_failure (ascii ''Lookup failed: '')))
              @ [SetLoading False])"
proof (cases "newProvider env")
  case (Throws e)
  then have "try_block env name = ([], Thrown e)" by (simp add: try_block_def raise_def)
  with assms(1) Throws show ?thesis
    by (simp add: doLookup_run_effects calls_append calls_preamble fst_try_catch calls_log_failure)
next
  case (Returns v)
  let ?h = "log_failure (ascii ''Lookup failed: '')"
  have tb: "try_block env name =
      ((AddLog Info (ascii ''Input is an address: '' @ name) # namehash_step env name)
       @ fst (after_resolution env name name), snd (after_resolution env name name))"
    using try_block_address [OF Returns assms(2) assms(1)] by simp
  have eff: "fst (doLookup_run env name) =
      preamble name @ [AddLog Info (ascii ''Input is an address: '' @ name)]
      @ namehash_step env name @ fst (try_catch (after_resolution env name name) ?h)
      @ [SetLoading False]"
    using assms(1) unfolding doLookup_run_effects [OF assms(1)] tb try_catch_Cons by simp
  have "ResolveName n \<notin> set (calls (fst (try_catch (after_resolution env name name) ?h)))"
    using ResolveName_after_resolution [of n env name name]
    by (simp add: fst_try_catch calls_append calls_log_failure split: completion.splits)
  then have "ResolveName n \<notin> set (calls (fst (doLookup_run env name)))"
    unfolding eff
    by (simp add: calls_append calls_preamble calls_namehash_step)
  with eff show ?thesis by simp
qed

theorem address_skips_resolveName_witness:
  "addr0 \<noteq> [] \<and> isAddress env0 addr0 = Returns True \<and> newProvider env0 = Returns () \<and>
   ResolveName addr0 \<notin> set (calls (fst (doLookup_run env0 addr0))) \<and>
   take 8 (fst (doLookup_run env0 addr0)) =
     preamble addr0 @ [AddLog Info (ascii ''Input is an address: '' @ addr0),
                       Await (GetBalance addr0),
                       AddLog Info (ascii ''balance: 1.0 ETH'')]"
proof -
  have h1: "addr0 \<noteq> []" by (simp add: addr0_def ascii_def)
  have h2: "isAddress env0 addr0 = Returns True" by (simp add: env0_def)
  have h3: "newProvider env0 = Returns ()" by (simp add: env0_def)
  note inst = address_skips_resolveName [OF h1 h2, of addr0 "()"]
  have nh: "namehash_step env0 addr0 = []" by (simp add: namehash_step_def env0_def)
  have b: "balance_step env0 addr0 =
     ([Await (GetBalance addr0), AddLog Info (ascii ''balance: '' @ ascii ''1.0'' @ ascii '' ETH''),
      UpdateProfile (\<lambda>p. p\<lparr>p_address := Some addr0, p_balance := Some (ascii ''1.0'' @ ascii '' ETH'')\<rparr>)],
      Normal)"
    by (simp add: balance_step_def env0_def seq_def emit_def)
  from inst h3 have "fst (doLookup_run env0 addr0) =
      preamble addr0 @ [AddLog Info (ascii ''Input is an address: '' @ addr0)]
      @ namehash_step env0 addr0
      @ fst (try_catch (after_resolution env0 addr0 addr0) (log_failure (ascii ''Lookup failed: '')))
      @ [SetLoading False]"
    by blast
  then have "take 8 (fst (doLookup_run env0 addr0)) =
     preamble addr0 @ [AddLog Info (ascii ''Input is an address: '' @ addr0),
                       Await (GetBalance addr0),
                       AddLog Info (ascii ''balance: '' @ ascii ''1.0'' @ ascii '' ETH'')]"
    unfolding nh after_resolution_def b
    by (simp add: preamble_def fst_try_catch fst_seq)
  then have t: "take 8 (fst (doLookup_run env0 addr0)) =
     preamble addr0 @ [AddLog Info (ascii ''Input is an address: '' @ addr0),
                       Await (GetBalance addr0),
                       AddLog Info (ascii ''balance: 1.0 ETH'')]"
    by (simp add: ascii_def)
  from inst have c: "ResolveName addr0 \<notin> set (calls (fst (doLookup_run env0 addr0)))" by blast
  from h1 h2 h3 c t show ?thesis by (intro conjI)
qed

subsection \<open>Claim C7: the avatar\<close>

lemma normalize_avatar_ipfs:
  "normalize_avatar (ascii ''ipfs://'' @ rest) = ascii ''https://ipfs.io/ipfs/'' @ rest"
  by (simp add: normalize_avatar_def startsWith_def ascii_def)

lemma normalize_avatar_other:
  "\<not> startsWith v (ascii ''ipfs://'') \<Longrightarrow> normalize_avatar v = v"
  by (simp add: normalize_avatar_def)

lemma avatar_step_fetched:
  "r_getText r (ascii ''avatar'') = Returns (Some v) \<Longrightarrow> v \<noteq> [] \<Longrightarrow>
     avatar_step r =
       [Await (GetText (ascii ''avatar'')),
        AddLog Info (ascii ''profile.avatar = '' @ normalize_avatar v),
        UpdateProfile (\<lambda>p. p\<lparr>p_avatar := Some (normalize_avatar v)\<rparr>)]"
  by (simp add: avatar_step_def)

text \<open>
  Claim C7: a fetched avatar text that begins with \<open>ipfs://\<close> has that prefix replaced
  by \<open>https://ipfs.io/ipfs/\<close> before it is merged into the profile's avatar, so
  \<open>ipfs://Qm123\<close> becomes \<open>https://ipfs.io/ipfs/Qm123\<close>; a value that does not
  start with \<open>ipfs://\<close>, such as one starting with \<open>https://\<close>, is merged as it is.
\<close>

theorem avatar_normalized:
  "normalize_avatar (ascii ''ipfs://'' @ rest) = ascii ''https://ipfs.io/ipfs/'' @ rest \<and>
   (\<not> startsWith v (ascii ''ipfs://'') \<longrightarrow> normalize_avatar v = v) \<and>
   normalize_avatar (ascii ''ipfs://Qm123'') = ascii ''https://ipfs.io/ipfs/Qm123'' \<and>
   normalize_avatar (ascii ''https://'' @ rest) = ascii ''https://'' @ rest \<and>
   (r_getText r (ascii ''avatar'') = Returns (Some v) \<and> v \<noteq> [] \<longrightarrow>
      avatar_step r =
        [Await (GetText (ascii ''avatar'')),
         AddLog Info (ascii ''profile.avatar = '' @ normalize_avatar v),
         UpdateProfile (\<lambda>p. p\<lparr>p_avatar := Some (normalize_avatar v)\<rparr>)] \<and>
      text_fields (profile (run_effects env s (avatar_step r))) =
        (fst (text_fields (profile s)), fst (snd (text_fields (profile s))),
         Some (normalize_avatar v), snd (snd (snd (text_fields (profile s))))))"
proof -
  have a: "normalize_avatar (ascii ''ipfs://'' @ rest) = ascii ''https://ipfs.io/ipfs/'' @ rest"
    by (rule normalize_avatar_ipfs)
  have b: "\<not> startsWith v (ascii ''ipfs://'') \<longrightarrow> normalize_avatar v = v"
    by (simp add: normalize_avatar_other)
  have c: "normalize_avatar (ascii ''ipfs://Qm123'') = ascii ''https://ipfs.io/ipfs/Qm123''"
    using normalize_avatar_ipfs [of "ascii ''Qm123''"] by (simp add: ascii_def)
  have d: "normalize_avatar (ascii ''https://'' @ rest) = ascii ''https://'' @ rest"
    by (simp add: normalize_avatar_def startsWith_def ascii_def)
  have e: "r_getText r (ascii ''avatar'') = Returns (Some v) \<and> v \<noteq> [] \<longrightarrow>
      avatar_step r =
        [Await (GetText (ascii ''avatar'')),
         AddLog Info (ascii ''profile.avatar = '' @ normalize_avatar v),
         UpdateProfile (\<lambda>p. p\<lparr>p_avatar := Some (normalize_avatar v)\<rparr>)] \<and>
      text_fields (profile (run_effects env s (avatar_step r))) =
        (fst (text_fields (profile s)), fst (snd (text_fields (profile s))),
         Some (normalize_avatar v), snd (snd (snd (text_fields (profile s)))))"
    by (auto simp: avatar_step_fetched run_effects_def apply_effect_def text_fields_def
        emptyProfile_def split: option.splits)
  from a b c d e show ?thesis by (intro conjI)
qed

theorem avatar_normalized_witness:
  "\<not> startsWith (ascii ''data:image/png;base64,AAAA'') (ascii ''ipfs://'') \<and>
   normalize_avatar (ascii ''data:image/png;base64,AAAA'') = ascii ''data:image/png;base64,AAAA'' \<and>
   r_getText (resolver0\<lparr>r_getText := (\<lambda>k. Returns (Some (ascii ''ipfs://Qm123'')))\<rparr>) (ascii ''avatar'')
     = Returns (Some (ascii ''ipfs://Qm123'')) \<and>
   ascii ''ipfs://Qm123'' \<noteq> [] \<and>
   text_fields (profile (run_effects env0 state0
      (avatar_step (resolver0\<lparr>r_getText := (\<lambda>k. Returns (Some (ascii ''ipfs://Qm123'')))\<rparr>)))) =
     (Some (ascii ''previous''), None, Some (ascii ''https://ipfs.io/ipfs/Qm123''), None)"
proof -
  let ?r = "resolver0\<lparr>r_getText := (\<lambda>k. Returns (Some (ascii ''ipfs://Qm123'')))\<rparr>"
  have h1: "\<not> startsWith (ascii ''data:image/png;base64,AAAA'') (ascii ''ipfs://'')"
    by (simp add: startsWith_def ascii_def)
  have h2: "r_getText ?r (ascii ''avatar'') = Returns (Some (ascii ''ipfs://Qm123''))" by simp
  have h3: "ascii ''ipfs://Qm123'' \<noteq> []" by (simp add: ascii_def)
  note inst1 = avatar_normalized [of "[]" "ascii ''data:image/png;base64,AAAA''" ?r env0 state0]
  note inst2 = avatar_normalized [of "[]" "ascii ''ipfs://Qm123''" ?r env0 state0]
  from inst1 h1 have n1: "normalize_avatar (ascii ''data:image/png;base64,AAAA'') = ascii ''data:image/png;base64,AAAA''"
    by blast
  from inst2 have n2: "normalize_avatar (ascii ''ipfs://Qm123'') = ascii ''https://ipfs.io/ipfs/Qm123''"
    by blast
  have tf0: "text_fields (profile state0) = (Some (ascii ''previous''), None, None, None)"
    by (simp add: state0_def text_fields_def emptyProfile_def)
  from inst2 h2 h3 have "text_fields (profile (run_effects env0 state0 (avatar_step ?r))) =
        (fst (text_fields (profile state0)), fst (snd (text_fields (profile state0))),
         Some (normalize_avatar (ascii ''ipfs://Qm123'')), snd (snd (snd (text_fields (profile state0)))))"
    by blast
  then have t: "text_fields (profile (run_effects env0 state0 (avatar_step ?r))) =
     (Some (ascii ''previous''), None, Some (ascii ''https://ipfs.io/ipfs/Qm123''), None)"
    unfolding tf0 n2 by simp
  from h1 n1 h2 h3 t show ?thesis by (intro conjI)
qed

subsection \<open>The text fields of the profile through the steps\<close>

lemmas run_simps = run_effects_def apply_effect_def text_fields_def emptyProfile_def

lemma keeps_textD:
  "keeps_text evs \<Longrightarrow> text_fields (profile (run_effects env s evs)) = text_fields (profile s)"
  by (simp add: keeps_text_def)

lemma keeps_text_Nil: "keeps_text []"
  by (simp add: keeps_text_def run_effects_Nil)

lemma keeps_text_append: "keeps_text a \<Longrightarrow> keeps_text b \<Longrightarrow> keeps_text (a @ b)"
  by (simp add: keeps_text_def run_effects_append)

lemma keeps_text_seq: "keeps_text (fst a) \<Longrightarrow> keeps_text (fst b) \<Longrightarrow> keeps_text (fst (seq a b))"
  by (simp add: fst_seq keeps_text_append keeps_text_Nil)

lemma keeps_text_seq_Normal:
  "keeps_text (fst a) \<Longrightarrow> (snd a = Normal \<Longrightarrow> keeps_text (fst b)) \<Longrightarrow>
     keeps_text (fst (seq a b))"
  by (simp add: fst_seq keeps_text_append keeps_text_Nil)

lemma keeps_text_raise: "keeps_text (fst (raise e))"
  by (simp add: fst_raise keeps_text_Nil)

lemma keeps_text_Await: "keeps_text [Await c]"
  by (simp add: keeps_text_def run_simps)

lemma keeps_text_AddLog: "keeps_text [AddLog l t]"
  by (simp add: keeps_text_def run_simps)

lemma keeps_text_SetLoading: "keeps_text [SetLoading b]"
  by (simp add: keeps_text_def run_simps)

lemma keeps_text_log_failure: "keeps_text (fst (log_failure prefix err))"
  by (simp add: fst_log_failure keeps_text_AddLog keeps_text_Nil split: outcome.splits)

lemma keeps_text_handler:
  "keeps_text (case c of Thrown e \<Rightarrow> fst (log_failure prefix e) | _ \<Rightarrow> [])"
  by (simp add: keeps_text_log_failure keeps_text_Nil split: completion.splits)

lemma keeps_text_resolve_step: "keeps_text (fst (fst (resolve_step env name b)))"
  by (simp add: keeps_text_def resolve_step_def fst_seq fst_emit snd_emit fst_log_failure run_simps
      split: outcome.splits)

lemma keeps_text_namehash_step: "keeps_text (namehash_step env name)"
  by (simp add: keeps_text_def namehash_step_def run_simps split: outcome.splits)

lemma keeps_text_balance_step: "keeps_text (fst (balance_step env a))"
  by (simp add: keeps_text_def balance_step_def fst_seq fst_emit snd_emit fst_log_failure run_simps
      split: outcome.splits option.splits)

lemma keeps_text_code_step: "keeps_text (fst (code_step env a))"
  by (simp add: keeps_text_def code_step_def fst_seq fst_emit snd_emit fst_log_failure run_simps
      split: outcome.splits)

lemma keeps_text_txcount_step: "keeps_text (fst (txcount_step env a))"
  by (simp add: keeps_text_def txcount_step_def fst_seq fst_emit snd_emit fst_log_failure run_simps
      split: outcome.splits)

lemma keeps_text_reverse_step: "keeps_text (fst (reverse_step env a))"
  by (simp add: keeps_text_def reverse_step_def fst_seq fst_emit snd_emit fst_log_failure run_simps
      split: outcome.splits option.splits)

lemma keeps_text_getResolver_step: "keeps_text (fst (fst (getResolver_step env name)))"
  by (simp add: keeps_text_def getResolver_step_def fst_seq fst_emit snd_emit fst_log_failure
      run_simps split: outcome.splits option.splits)

lemma keeps_text_contentHash_step: "keeps_text (fst (contentHash_step r))"
  by (simp add: keeps_text_def contentHash_step_def fst_seq fst_emit snd_emit fst_log_failure
      run_simps split: outcome.splits option.splits)

lemma keeps_text_resolverAddress_step: "keeps_text (fst (resolverAddress_step r))"
  by (simp add: keeps_text_def resolverAddress_step_def fst_seq fst_emit snd_emit fst_log_failure
      run_simps split: outcome.splits option.splits)

lemma keeps_text_coin_step: "keeps_text (fst (coin_step r coin))"
  by (simp add: keeps_text_def coin_step_def fst_seq fst_emit snd_emit fst_log_failure
      run_simps split: outcome.splits option.splits)

lemma keeps_text_coin_loop: "keeps_text (fst (coin_loop r coins))"
  by (induction coins) (simp_all add: fst_emit keeps_text_Nil keeps_text_seq keeps_text_coin_step)

lemma keeps_text_no_history: "keeps_text (fst (no_history env data))"
  by (simp add: keeps_text_def no_history_def fst_emit fst_raise run_simps split: outcome.splits)

lemma keeps_text_handle_data: "keeps_text (fst (handle_data env data))"
proof -
  have e: "\<And>env' s ts t. text_fields (profile (run_effects env' s [SetTransactions ts, AddLog Info t]))
      = text_fields (profile s)"
    by (simp add: run_simps)
  have n: "\<And>env' s. text_fields (profile (run_effects env' s (fst (no_history env data))))
      = text_fields (profile s)"
    using keeps_text_no_history [of env data] by (simp add: keeps_text_def)
  show ?thesis
    unfolding keeps_text_def
    by (simp add: handle_data_def fst_emit fst_raise run_effects_Nil e n
        split: outcome.splits option.splits json.splits)
qed

lemma keeps_text_history_body: "keeps_text (fst (history_body env a))"
proof -
  have e: "keeps_text (fst (emit [AddLog Info t, Await c]))" for t c
    by (simp add: keeps_text_def fst_emit run_simps)
  have j: "keeps_text (fst (emit [Await c]))" for c
    by (simp add: fst_emit keeps_text_Await)
  show ?thesis
    unfolding history_body_def
    by (intro keeps_text_seq e)
       (auto simp: keeps_text_raise keeps_text_handle_data j intro!: keeps_text_seq
         split: outcome.splits)
qed

lemma keeps_text_history_failed: "keeps_text (fst (history_failed err))"
  by (simp add: keeps_text_def history_failed_def fst_emit fst_raise run_simps
      split: outcome.splits)

lemma keeps_text_transactions_step: "keeps_text (fst (transactions_step env a))"
  by (simp add: transactions_step_def fst_try_catch keeps_text_append keeps_text_history_body
      keeps_text_history_failed keeps_text_Nil split: completion.splits)

lemma text_fields_preamble:
  "text_fields (profile (run_effects env s (preamble name))) = (None, None, None, None)"
  by (simp add: preamble_def run_simps)

lemma text_fields_name_step:
  "text_fields (profile (run_effects env s (name_step r))) =
     (case text_fields (profile s) of (n, u, a, d) \<Rightarrow>
        (case fetched (r_getText r (ascii ''name'')) of Some v \<Rightarrow> Some v | None \<Rightarrow> n, u, a, d))"
  by (simp add: name_step_def fetched_def run_simps split: outcome.splits option.splits)

lemma text_fields_url_step:
  "text_fields (profile (run_effects env s (url_step r))) =
     (case text_fields (profile s) of (n, u, a, d) \<Rightarrow>
        (n, case fetched (r_getText r (ascii ''url'')) of Some v \<Rightarrow> Some v | None \<Rightarrow> u, a, d))"
  by (simp add: url_step_def fetched_def run_simps split: outcome.splits option.splits)

lemma text_fields_avatar_step:
  "text_fields (profile (run_effects env s (avatar_step r))) =
     (case text_fields (profile s) of (n, u, a, d) \<Rightarrow>
        (n, u, case fetched (r_getText r (ascii ''avatar'')) of
                 Some v \<Rightarrow> Some (normalize_avatar v) | None \<Rightarrow> a, d))"
  by (simp add: avatar_step_def fetched_def run_simps split: outcome.splits option.splits)

lemma text_fields_description_step:
  "text_fields (profile (run_effects env s (description_step r))) =
     (case text_fields (profile s) of (n, u, a, d) \<Rightarrow>
        (n, u, a, case fetched (r_getText r (ascii ''description'')) of
                    Some v \<Rightarrow> Some v | None \<Rightarrow> d))"
  by (simp add: description_step_def fetched_def run_simps split: outcome.splits option.splits)

lemma text_fields_profile_fields:
  "text_fields (profile (run_effects env s (profile_fields r))) =
     (case text_fields (profile s) of (n, u, a, d) \<Rightarrow>
        (case fetched (r_getText r (ascii ''name'')) of Some v \<Rightarrow> Some v | None \<Rightarrow> n,
         case fetched (r_getText r (ascii ''url'')) of Some v \<Rightarrow> Some v | None \<Rightarrow> u,
         case fetched (r_getText r (ascii ''avatar'')) of
           Some v \<Rightarrow> Some (normalize_avatar v) | None \<Rightarrow> a,
         case fetched (r_getText r (ascii ''description'')) of Some v \<Rightarrow> Some v | None \<Rightarrow> d))"
  by (simp add: profile_fields_def run_effects_append text_fields_name_step text_fields_url_step
      text_fields_avatar_step text_fields_description_step split: prod.splits)

lemma log_lines_profile_fields:
  "log_lines (profile_fields r) =
     (case fetched (r_getText r (ascii ''name'')) of
        Some v \<Rightarrow> [(Info, ascii ''profile.name = '' @ v)] | None \<Rightarrow> [])
     @ (case fetched (r_getText r (ascii ''url'')) of
          Some v \<Rightarrow> [(Info, ascii ''profile.url = '' @ v)] | None \<Rightarrow> [])
     @ (case fetched (r_getText r (ascii ''avatar'')) of
          Some v \<Rightarrow> [(Info, ascii ''profile.avatar = '' @ normalize_avatar v)] | None \<Rightarrow> [])
     @ (case fetched (r_getText r (ascii ''description'')) of
          Some v \<Rightarrow> [(Info, ascii ''profile.description = '' @ v)] | None \<Rightarrow> [])"
  by (simp add: profile_fields_def log_lines_append name_step_def url_step_def avatar_step_def
      description_step_def fetched_def split: outcome.splits option.splits)

text \<open>The effects of the resolver's steps, once the content hash has ended normally.\<close>

lemma resolver_steps_effects:
  assumes "snd (contentHash_step r) = Normal"
  shows "\<exists>post. keeps_text post \<and>
     fst (resolver_steps r) = fst (contentHash_step r) @ profile_fields r @ post"
proof -
  let ?rest = "seq (resolverAddress_step r) (coin_loop r coinTypes)"
  have k: "keeps_text (fst ?rest)"
    by (intro keeps_text_seq keeps_text_resolverAddress_step keeps_text_coin_loop)
  have "fst (resolver_steps r) = fst (contentHash_step r) @ profile_fields r @ fst ?rest"
    using assms by (simp add: resolver_steps_def fst_seq snd_seq fst_emit snd_emit)
  with k show ?thesis by blast
qed

lemma resolver_block_effects:
  assumes "getResolver env name = Returns (Some r)" and "snd (contentHash_step r) = Normal"
  shows "\<exists>pre post. keeps_text pre \<and> keeps_text post \<and>
     fst (resolver_block env name) = pre @ profile_fields r @ post"
proof -
  from resolver_steps_effects [OF assms(2)] obtain post where
    post: "keeps_text post" "fst (resolver_steps r) = fst (contentHash_step r) @ profile_fields r @ post"
    by blast
  let ?g = "fst (getResolver_step env name)"
  have sg: "snd (getResolver_step env name) = Some r" and ng: "snd ?g = Normal"
    using assms(1) by (simp_all add: getResolver_step_def snd_emit)
  have "fst (resolver_block env name) = (fst ?g @ fst (contentHash_step r)) @ profile_fields r @ post"
    using sg ng post(2) by (simp add: resolver_block_def case_prod_beta fst_seq)
  moreover have "keeps_text (fst ?g @ fst (contentHash_step r))"
    by (intro keeps_text_append keeps_text_getResolver_step keeps_text_contentHash_step)
  ultimately show ?thesis using post(1) by blast
qed

lemma after_resolution_effects:
  assumes "getResolver env name = Returns (Some r)" and "snd (contentHash_step r) = Normal"
    and "snd (balance_step env a) = Normal" and "snd (code_step env a) = Normal"
    and "snd (txcount_step env a) = Normal" and "snd (reverse_step env a) = Normal"
  shows "\<exists>pre post. keeps_text pre \<and> keeps_text post \<and>
     fst (after_resolution env name a) = pre @ profile_fields r @ post"
proof -
  from resolver_block_effects [OF assms(1,2)] obtain pre post where
    rb: "keeps_text pre" "keeps_text post" "fst (resolver_block env name) = pre @ profile_fields r @ post"
    by blast
  let ?tx = "if snd (resolver_block env name) = Normal
             then fst (if a \<noteq> [] then transactions_step env a else emit []) else []"
  let ?pre = "fst (balance_step env a) @ fst (code_step env a) @ fst (txcount_step env a)
              @ fst (reverse_step env a) @ pre"
  have k1: "keeps_text ?pre"
    by (intro keeps_text_append keeps_text_balance_step keeps_text_code_step
        keeps_text_txcount_step keeps_text_reverse_step rb(1))
  have k2: "keeps_text (post @ ?tx)"
    by (intro keeps_text_append rb(2))
       (simp add: keeps_text_transactions_step keeps_text_Nil fst_emit)
  have "fst (after_resolution env name a) = ?pre @ profile_fields r @ (post @ ?tx)"
    using assms(3-6) rb(3) by (simp add: after_resolution_def fst_seq snd_seq)
  with k1 k2 show ?thesis by blast
qed

lemma snd_resolve_step_Some:
  "snd (resolve_step env name b) = Some a \<Longrightarrow> snd (fst (resolve_step env name b)) = Normal"
  by (auto simp: resolve_step_def snd_emit split: if_splits outcome.splits)

lemma doLookup_effects_resolved:
  assumes "name \<noteq> []" and "newProvider env = Returns u" and "isAddress env name = Returns b"
    and "snd (resolve_step env name b) = Some a" and "a \<noteq> []"
    and "getResolver env name = Returns (Some r)" and "snd (contentHash_step r) = Normal"
    and "snd (balance_step env a) = Normal" and "snd (code_step env a) = Normal"
    and "snd (txcount_step env a) = Normal" and "snd (reverse_step env a) = Normal"
  shows "\<exists>pre post. keeps_text pre \<and> keeps_text post \<and>
     fst (doLookup_run env name) = preamble name @ pre @ profile_fields r @ post"
proof -
  from after_resolution_effects [OF assms(6-11)] obtain pre post where
    ar: "keeps_text pre" "keeps_text post" "fst (after_resolution env name a) = pre @ profile_fields r @ post"
    by blast
  obtain r0 ra where rs: "resolve_step env name b = (r0, ra)" by (cases "resolve_step env name b")
  with assms(4) have ra: "ra = Some a" by simp
  from snd_resolve_step_Some [OF assms(4)] rs have n0: "snd r0 = Normal" by simp
  have k0: "keeps_text (fst r0)"
    using keeps_text_resolve_step [of env name b] rs by simp
  let ?h = "log_failure (ascii ''Lookup failed: '')"
  let ?c = "case snd (try_block env name) of Thrown e \<Rightarrow> fst (?h e) | _ \<Rightarrow> []"
  have tb: "fst (try_block env name) = fst r0 @ namehash_step env name @ fst (after_resolution env name a)"
    using assms(2,3,5) rs ra n0 by (simp add: try_block_def fst_seq snd_seq fst_emit snd_emit)
  have eff: "fst (doLookup_run env name) =
      preamble name @ (fst r0 @ namehash_step env name @ pre) @ profile_fields r
      @ (post @ ?c @ [SetLoading False])"
    using assms(1) by (simp add: doLookup_run_effects fst_try_catch tb ar(3))
  have k1: "keeps_text (fst r0 @ namehash_step env name @ pre)"
    by (intro keeps_text_append k0 keeps_text_namehash_step ar(1))
  have k2: "keeps_text (post @ ?c @ [SetLoading False])"
    by (intro keeps_text_append ar(2) keeps_text_handler keeps_text_SetLoading)
  from eff k1 k2 show ?thesis by blast
qed

text \<open>When a step before the text records ends with an exception, the records are not
  reached.\<close>

lemma resolver_block_not_reached:
  assumes "getResolver env name = Returns (Some r)" and "snd (contentHash_step r) \<noteq> Normal"
  shows "keeps_text (fst (resolver_block env name))"
    and "snd (resolver_block env name) \<noteq> Normal"
proof -
  let ?g = "fst (getResolver_step env name)"
  have sg: "snd (getResolver_step env name) = Some r" and ng: "snd ?g = Normal"
    using assms(1) by (simp_all add: getResolver_step_def snd_emit)
  have rs: "fst (resolver_steps r) = fst (contentHash_step r)"
    "snd (resolver_steps r) = snd (contentHash_step r)"
    using assms(2) by (simp_all add: resolver_steps_def fst_seq snd_seq)
  have "fst (resolver_block env name) = fst ?g @ fst (contentHash_step r)"
    using sg ng rs by (simp add: resolver_block_def case_prod_beta fst_seq)
  then show "keeps_text (fst (resolver_block env name))"
    by (simp add: keeps_text_append keeps_text_getResolver_step keeps_text_contentHash_step)
  show "snd (resolver_block env name) \<noteq> Normal"
    using sg ng rs assms(2) by (simp add: resolver_block_def case_prod_beta snd_seq)
qed

lemma after_resolution_not_reached:
  assumes "getResolver env name = Returns (Some r)"
    and "\<not> (snd (balance_step env a) = Normal \<and> snd (code_step env a) = Normal \<and>
            snd (txcount_step env a) = Normal \<and> snd (reverse_step env a) = Normal \<and>
            snd (contentHash_step r) = Normal)"
  shows "keeps_text (fst (after_resolution env name a))"
  unfolding after_resolution_def
proof (intro keeps_text_seq_Normal keeps_text_balance_step keeps_text_code_step
    keeps_text_txcount_step keeps_text_reverse_step)
  assume "snd (balance_step env a) = Normal" "snd (code_step env a) = Normal"
    "snd (txcount_step env a) = Normal" "snd (reverse_step env a) = Normal"
  with assms(2) have "snd (contentHash_step r) \<noteq> Normal" by simp
  from resolver_block_not_reached(1) [OF assms(1) this]
  show "keeps_text (fst (resolver_block env name))" .
next
  show "keeps_text (fst (if a \<noteq> [] then transactions_step env a else emit []))"
    by (simp add: keeps_text_transactions_step keeps_text_Nil fst_emit)
qed

lemma doLookup_effects_not_reached:
  assumes "name \<noteq> []" and "newProvider env = Returns u" and "isAddress env name = Returns b"
    and "snd (resolve_step env name b) = Some a" and "a \<noteq> []"
    and "getResolver env name = Returns (Some r)"
    and "\<not> (snd (balance_step env a) = Normal \<and> snd (code_step env a) = Normal \<and>
            snd (txcount_step env a) = Normal \<and> snd (reverse_step env a) = Normal \<and>
            snd (contentHash_step r) = Normal)"
  shows "\<exists>post. keeps_text post \<and> fst (doLookup_run env name) = preamble name @ post"
proof -
  obtain r0 ra where rs: "resolve_step env name b = (r0, ra)" by (cases "resolve_step env name b")
  with assms(4) have ra: "ra = Some a" by simp
  from snd_resolve_step_Some [OF assms(4)] rs have n0: "snd r0 = Normal" by simp
  have k0: "keeps_text (fst r0)"
    using keeps_text_resolve_step [of env name b] rs by simp
  let ?h = "log_failure (ascii ''Lookup failed: '')"
  let ?c = "case snd (try_block env name) of Thrown e \<Rightarrow> fst (?h e) | _ \<Rightarrow> []"
  have tb: "fst (try_block env name) = fst r0 @ namehash_step env name @ fst (after_resolution env name a)"
    using assms(2,3,5) rs ra n0 by (simp add: try_block_def fst_seq snd_seq fst_emit snd_emit)
  have eff: "fst (doLookup_run env name) =
      preamble name @ (fst r0 @ namehash_step env name @ fst (after_resolution env name a)
                       @ ?c @ [SetLoading False])"
    using assms(1) by (simp add: doLookup_run_effects fst_try_catch tb)
  have "keeps_text (fst r0 @ namehash_step env name @ fst (after_resolution env name a)
                       @ ?c @ [SetLoading False])"
    by (intro keeps_text_append k0 keeps_text_namehash_step keeps_text_handler
        keeps_text_SetLoading after_resolution_not_reached [OF assms(6,7)])
  with eff show ?thesis by blast
qed

subsection \<open>Claim C5: the four text records\<close>

text \<open>
  Claim C5: the four text-record fetches (name, url, avatar, description) are isolated
  from one another. All four are made whatever any of them does, a throw included; each
  field of the profile is set from its own fetch alone; a fetch that throws or returns an
  empty (falsy) value writes no log entry and leaves its field unset. So a throw of the
  avatar fetch does not keep the description from being fetched and merged. The profile
  at the end is stated for every lookup with a resolved address and a resolver: its text
  fields are those of the four fetches when the steps before the records end normally,
  and unset when one of them ends with an exception, which keeps the lookup from
  reaching the records.
\<close>

theorem text_records_isolated:
  "calls (profile_fields r) =
     [GetText (ascii ''name''), GetText (ascii ''url''), GetText (ascii ''avatar''),
      GetText (ascii ''description'')] \<and>
   log_lines (profile_fields r) =
     (case fetched (r_getText r (ascii ''name'')) of
        Some v \<Rightarrow> [(Info, ascii ''profile.name = '' @ v)] | None \<Rightarrow> [])
     @ (case fetched (r_getText r (ascii ''url'')) of
          Some v \<Rightarrow> [(Info, ascii ''profile.url = '' @ v)] | None \<Rightarrow> [])
     @ (case fetched (r_getText r (ascii ''avatar'')) of
          Some v \<Rightarrow> [(Info, ascii ''profile.avatar = '' @ normalize_avatar v)] | None \<Rightarrow> [])
     @ (case fetched (r_getText r (ascii ''description'')) of
          Some v \<Rightarrow> [(Info, ascii ''profile.description = '' @ v)] | None \<Rightarrow> []) \<and>
   (name \<noteq> [] \<and> newProvider env = Returns u \<and> isAddress env name = Returns b \<and>
    snd (resolve_step env name b) = Some a \<and> a \<noteq> [] \<and>
    getResolver env name = Returns (Some r) \<longrightarrow>
      text_fields (profile (doLookup env name s)) =
        (if snd (balance_step env a) = Normal \<and> snd (code_step env a) = Normal \<and>
            snd (txcount_step env a) = Normal \<and> snd (reverse_step env a) = Normal \<and>
            snd (contentHash_step r) = Normal
         then (fetched (r_getText r (ascii ''name'')),
               fetched (r_getText r (ascii ''url'')),
               map_option normalize_avatar (fetched (r_getText r (ascii ''avatar''))),
               fetched (r_getText r (ascii ''description'')))
         else (None, None, None, None)))"
proof -
  have final: "name \<noteq> [] \<and> newProvider env = Returns u \<and> isAddress env name = Returns b \<and>
    snd (resolve_step env name b) = Some a \<and> a \<noteq> [] \<and>
    getResolver env name = Returns (Some r) \<longrightarrow>
      text_fields (profile (doLookup env name s)) =
        (if snd (balance_step env a) = Normal \<and> snd (code_step env a) = Normal \<and>
            snd (txcount_step env a) = Normal \<and> snd (reverse_step env a) = Normal \<and>
            snd (contentHash_step r) = Normal
         then (fetched (r_getText r (ascii ''name'')),
               fetched (r_getText r (ascii ''url'')),
               map_option normalize_avatar (fetched (r_getText r (ascii ''avatar''))),
               fetched (r_getText r (ascii ''description'')))
         else (None, None, None, None))"
  proof (intro impI, elim conjE)
    assume h: "name \<noteq> []" "newProvider env = Returns u" "isAddress env name = Returns b"
      "snd (resolve_step env name b) = Some a" "a \<noteq> []" "getResolver env name = Returns (Some r)"
    let ?reached = "snd (balance_step env a) = Normal \<and> snd (code_step env a) = Normal \<and>
            snd (txcount_step env a) = Normal \<and> snd (reverse_step env a) = Normal \<and>
            snd (contentHash_step r) = Normal"
    show "text_fields (profile (doLookup env name s)) =
        (if ?reached
         then (fetched (r_getText r (ascii ''name'')),
               fetched (r_getText r (ascii ''url'')),
               map_option normalize_avatar (fetched (r_getText r (ascii ''avatar''))),
               fetched (r_getText r (ascii ''description'')))
         else (None, None, None, None))"
    proof (cases ?reached)
      case True
      with h obtain pre post where kp: "keeps_text pre" "keeps_text post"
        and eff: "fst (doLookup_run env name) = preamble name @ pre @ profile_fields r @ post"
        using doLookup_effects_resolved [of name env u b a r] by blast
      have "text_fields (profile (doLookup env name s)) =
          text_fields (profile (run_effects env
            (run_effects env (run_effects env s (preamble name)) pre) (profile_fields r)))"
        unfolding doLookup_def eff
        by (simp only: run_effects_append keeps_textD [OF kp(2)])
      also have "\<dots> =
          (fetched (r_getText r (ascii ''name'')),
           fetched (r_getText r (ascii ''url'')),
           map_option normalize_avatar (fetched (r_getText r (ascii ''avatar''))),
           fetched (r_getText r (ascii ''description'')))"
        by (simp add: text_fields_profile_fields keeps_textD [OF kp(1)] text_fields_preamble
            split: option.splits)
      finally show ?thesis by (simp only: if_P [OF True])
    next
      case False
      from doLookup_effects_not_reached [OF h False] obtain post where kp: "keeps_text post"
        and eff: "fst (doLookup_run env name) = preamble name @ post"
        by blast
      have "text_fields (profile (doLookup env name s)) = (None, None, None, None)"
        unfolding doLookup_def eff
        by (simp only: run_effects_append keeps_textD [OF kp] text_fields_preamble)
      then show ?thesis by (simp only: if_not_P [OF False])
    qed
  qed
  from calls_profile_fields [of r] log_lines_profile_fields [of r] final
  show ?thesis by (intro conjI)
qed

theorem text_records_isolated_witness:
  "ascii ''vitalik.eth'' \<noteq> [] \<and> newProvider env0 = Returns () \<and>
   isAddress env0 (ascii ''vitalik.eth'') = Returns False \<and>
   snd (resolve_step env0 (ascii ''vitalik.eth'') False) = Some addr0 \<and> addr0 \<noteq> [] \<and>
   getResolver env0 (ascii ''vitalik.eth'') = Returns (Some resolver0) \<and>
   r_getText resolver0 (ascii ''avatar'') = Throws (Printable (ascii ''Error: call revert exception'')) \<and>
   r_getText resolver0 (ascii ''url'') = Returns (Some []) \<and>
   text_fields (profile (doLookup env0 (ascii ''vitalik.eth'') state0)) =
     (Some (ascii ''Vitalik''), None, None, Some (ascii ''mi pinxe lo crino tcati'')) \<and>
   snd (balance_step (env0\<lparr>getBalance := (\<lambda>a. Throws nullProto)\<rparr>) addr0) =
     Thrown (Printable (ascii ''TypeError: Cannot convert object to primitive value'')) \<and>
   text_fields (profile (doLookup (env0\<lparr>getBalance := (\<lambda>a. Throws nullProto)\<rparr>)
                           (ascii ''vitalik.eth'') state0)) =
     (None, None, None, None) \<and>
   log_lines (profile_fields resolver0) =
     [(Info, ascii ''profile.name = Vitalik''),
      (Info, ascii ''profile.description = mi pinxe lo crino tcati'')]"
proof -
  let ?n = "ascii ''vitalik.eth''"
  have h1: "?n \<noteq> []" by (simp add: ascii_def)
  have h2: "newProvider env0 = Returns ()" by (simp add: env0_def)
  have h3: "isAddress env0 ?n = Returns False" by (simp add: env0_def addr0_def ascii_def)
  have h4: "snd (resolve_step env0 ?n False) = Some addr0" by (simp add: resolve_step_def env0_def)
  have h5: "addr0 \<noteq> []" by (simp add: addr0_def ascii_def)
  have h6: "getResolver env0 ?n = Returns (Some resolver0)" by (simp add: env0_def)
  have h7: "snd (balance_step env0 addr0) = Normal"
    by (simp add: balance_step_def env0_def snd_seq snd_emit)
  have h8: "snd (code_step env0 addr0) = Normal"
    by (simp add: code_step_def env0_def snd_seq snd_emit)
  have h9: "snd (txcount_step env0 addr0) = Normal"
    by (simp add: txcount_step_def env0_def snd_seq snd_emit)
  have h10: "snd (reverse_step env0 addr0) = Normal"
    by (simp add: reverse_step_def env0_def snd_seq snd_emit)
  have h11: "snd (contentHash_step resolver0) = Normal"
    by (simp add: contentHash_step_def resolver0_def snd_seq snd_emit)
  have f1: "fetched (r_getText resolver0 (ascii ''name'')) = Some (ascii ''Vitalik'')"
    by (simp add: resolver0_def fetched_def ascii_def)
  have u: "r_getText resolver0 (ascii ''url'') = Returns (Some [])"
    by (simp add: resolver0_def ascii_def)
  then have f2: "fetched (r_getText resolver0 (ascii ''url'')) = None"
    by (simp add: fetched_def)
  have a: "r_getText resolver0 (ascii ''avatar'') = Throws (Printable (ascii ''Error: call revert exception''))"
    by (simp add: resolver0_def ascii_def)
  then have f3: "fetched (r_getText resolver0 (ascii ''avatar'')) = None"
    by (simp add: fetched_def)
  have f4: "fetched (r_getText resolver0 (ascii ''description'')) = Some (ascii ''mi pinxe lo crino tcati'')"
    by (simp add: resolver0_def fetched_def ascii_def)
  note inst = text_records_isolated [of resolver0 ?n env0 "()" False addr0 state0]
  from inst h1 h2 h3 h4 h5 h6
  have "text_fields (profile (doLookup env0 ?n state0)) =
        (if snd (balance_step env0 addr0) = Normal \<and> snd (code_step env0 addr0) = Normal \<and>
            snd (txcount_step env0 addr0) = Normal \<and> snd (reverse_step env0 addr0) = Normal \<and>
            snd (contentHash_step resolver0) = Normal
         then (fetched (r_getText resolver0 (ascii ''name'')),
               fetched (r_getText resolver0 (ascii ''url'')),
               map_option normalize_avatar (fetched (r_getText resolver0 (ascii ''avatar''))),
               fetched (r_getText resolver0 (ascii ''description'')))
         else (None, None, None, None))"
    by blast
  then have t: "text_fields (profile (doLookup env0 ?n state0)) =
     (Some (ascii ''Vitalik''), None, None, Some (ascii ''mi pinxe lo crino tcati''))"
    unfolding f1 f2 f3 f4 h7 h8 h9 h10 h11 by simp
  from inst have "log_lines (profile_fields resolver0) =
     (case fetched (r_getText resolver0 (ascii ''name'')) of
        Some v \<Rightarrow> [(Info, ascii ''profile.name = '' @ v)] | None \<Rightarrow> [])
     @ (case fetched (r_getText resolver0 (ascii ''url'')) of
          Some v \<Rightarrow> [(Info, ascii ''profile.url = '' @ v)] | None \<Rightarrow> [])
     @ (case fetched (r_getText resolver0 (ascii ''avatar'')) of
          Some v \<Rightarrow> [(Info, ascii ''profile.avatar = '' @ normalize_avatar v)] | None \<Rightarrow> [])
     @ (case fetched (r_getText resolver0 (ascii ''description'')) of
          Some v \<Rightarrow> [(Info, ascii ''profile.description = '' @ v)] | None \<Rightarrow> [])"
    by blast
  then have l: "log_lines (profile_fields resolver0) =
     [(Info, ascii ''profile.name = Vitalik''),
      (Info, ascii ''profile.description = mi pinxe lo crino tcati'')]"
    unfolding f1 f2 f3 f4 by (simp add: ascii_def)
  let ?envG = "env0\<lparr>getBalance := (\<lambda>a. Throws nullProto)\<rparr>"
  have g4: "snd (resolve_step ?envG ?n False) = Some addr0" by (simp add: resolve_step_def env0_def)
  have g7: "snd (balance_step ?envG addr0) =
      Thrown (Printable (ascii ''TypeError: Cannot convert object to primitive value''))"
    by (simp add: balance_step_def snd_seq snd_emit snd_log_failure String_of_def nullProto_def
        snd_raise)
  note instG = text_records_isolated [of resolver0 ?n ?envG "()" False addr0 state0]
  from instG h1 h2 h3 g4 h5 h6
  have "text_fields (profile (doLookup ?envG ?n state0)) =
        (if snd (balance_step ?envG addr0) = Normal \<and> snd (code_step ?envG addr0) = Normal \<and>
            snd (txcount_step ?envG addr0) = Normal \<and> snd (reverse_step ?envG addr0) = Normal \<and>
            snd (contentHash_step resolver0) = Normal
         then (fetched (r_getText resolver0 (ascii ''name'')),
               fetched (r_getText resolver0 (ascii ''url'')),
               map_option normalize_avatar (fetched (r_getText resolver0 (ascii ''avatar''))),
               fetched (r_getText resolver0 (ascii ''description'')))
         else (None, None, None, None))"
    by simp
  then have tg: "text_fields (profile (doLookup ?envG ?n state0)) = (None, None, None, None)"
    unfolding g7 by simp
  from h1 h2 h3 h4 h5 h6 a u t g7 tg l show ?thesis by (intro conjI)
qed

subsection \<open>The transaction history\<close>

lemma parseInt_returns: "returns (ToString env v) \<Longrightarrow> returns (parseInt env v)"
  by (simp add: parseInt_def returns_def split: outcome.splits)













text \<open>The body of the \<open>try\<close>, by what the response is.\<close>

lemma history_body_fetch_throws:
  "fetch env (etherscanUrl env a) = Throws e \<Longrightarrow>
     history_body env a =
       ([AddLog Info (ascii ''Fetching recent transactions from Etherscan...''),
         Await (Fetch (etherscanUrl env a))], Thrown e)"
  by (simp add: history_body_def seq_def emit_def raise_def)

lemma history_body_json_throws:
  "fetch env (etherscanUrl env a) = Returns (Throws e) \<Longrightarrow>
     history_body env a =
       ([AddLog Info (ascii ''Fetching recent transactions from Etherscan...''),
         Await (Fetch (etherscanUrl env a)), Await ResponseJson], Thrown e)"
  by (simp add: history_body_def seq_def emit_def raise_def)

lemma history_body_data:
  "fetch env (etherscanUrl env a) = Returns (Returns data) \<Longrightarrow>
     history_body env a =
       ([AddLog Info (ascii ''Fetching recent transactions from Etherscan...''),
         Await (Fetch (etherscanUrl env a)), Await ResponseJson] @ fst (handle_data env data),
        snd (handle_data env data))"
  by (cases "handle_data env data") (simp add: history_body_def seq_def emit_def)



lemma handle_data_null:
  "handle_data env JNull = ([], Thrown (Printable (nullPropertyError env (ascii ''status''))))"
  by (simp add: handle_data_def raise_def)





lemma handle_data_not_Returned: "snd (handle_data env data) \<noteq> Returned"
  by (auto simp: handle_data_def no_history_def raise_def emit_def
      split: if_splits option.splits json.splits outcome.splits)


lemma history_body_not_Returned: "snd (history_body env a) \<noteq> Returned"
proof (cases "fetch env (etherscanUrl env a)")
  case (Throws e0)
  then show ?thesis by (simp add: history_body_fetch_throws)
next
  case (Returns response)
  show ?thesis
  proof (cases response)
    case (Throws e0)
    with Returns show ?thesis by (simp add: history_body_json_throws)
  next
    case (Returns data)
    with \<open>fetch env (etherscanUrl env a) = Returns response\<close> show ?thesis
      by (simp add: history_body_data handle_data_not_Returned)
  qed
qed


lemma transactions_run_snoc_SetTransactions_AddLog:
  "transactions (run_effects env s (evs @ [SetTransactions txs, AddLog lvl txt])) = txs"
  by (simp add: run_effects_append run_effects_def apply_effect_def)








subsection \<open>Claim C4: the ways the history ends\<close>




end
